theory Spec2Isabelle
  imports Complex_Main "HOL-Library.Log_Nat"
begin

section \<open>Fleet tyre maintenance savings calculator (vanservicing.py)\<close>

text \<open>
  The calculation core of \<^verbatim>\<open>vanservicing.py\<close>: the two helper functions, the catalog
  \<^verbatim>\<open>DEFAULT_PARAMS\<close>, the per-class function \<^verbatim>\<open>process_van_type\<close> and the top-level
  statements that add its four results up.

  Numbers. The source computes with Python's \<^verbatim>\<open>float\<close>, an IEEE binary64 number. Two
  readings of it are given.
  \<^item> The exact reading (\<open>calculate_extra_fuel_cost_10k\<close>, \<open>calculate_extra_tyre_cost_10k\<close>,
    \<open>process_van_type\<close>, \<open>fleet_script\<close>): a float is a \<^typ>\<open>real\<close>, every decimal literal
    stands for the rational it denotes and \<^verbatim>\<open>+ - * /\<close> are exact. The statements about the
    guards, about what the aggregation records and adds up, and about figures at two decimals
    are made there.
  \<^item> The binary64 reading of the two helper functions (\<open>calculate_extra_fuel_cost_10k_f64\<close>,
    \<open>calculate_extra_tyre_cost_10k_f64\<close>): every operation rounds its exact result to the
    nearest binary64 number, ties to even, overflows to an infinity, underflows gradually to
    0, and infinities and NaN propagate as in IEEE 754. The statements about the value of
    the two helper functions at every positive economy, price or lifespan (claims C1, C2, C6
    and C7) are made there, since rounding, overflow and underflow decide them.
  Python's \<^verbatim>\<open>int\<close> is \<^typ>\<open>int\<close>; where the source mixes both, the integer is converted,
  as Python does.

  Errors. Python's \<^verbatim>\<open>/\<close> raises \<^verbatim>\<open>ZeroDivisionError\<close> on a zero divisor and a dictionary
  subscript raises \<^verbatim>\<open>KeyError\<close> on a missing key. Both are values of \<open>py_error\<close>, and
  every function returns \<open>py_error + result\<close> with \<open>Inl\<close> for a raised exception.

  Streamlit. The layout calls (\<^verbatim>\<open>st.subheader\<close>, \<^verbatim>\<open>st.write\<close>, \<^verbatim>\<open>st.caption\<close>) produce
  no value the calculation reads and are left out. The two \<^verbatim>\<open>st.number_input\<close> widgets
  that \<^verbatim>\<open>process_van_type\<close> reads are inputs of the model: \<open>count\<close> and \<open>miles\<close>.
\<close>

subsection \<open>Exceptions and division\<close>

datatype py_error = KeyError string | ZeroDivisionError

definition truediv :: "real \<Rightarrow> real \<Rightarrow> py_error + real" where
  "truediv a b = (if b = 0 then Inl ZeroDivisionError else Inr (a / b))"

subsection \<open>Constants and default assumptions\<close>

definition LITRES_PER_GALLON :: real where
  "LITRES_PER_GALLON = 4.54609"

record van_params =
  mpg_std :: real
  mpg_under :: real
  tyre_cost_std :: real
  tyre_cost_under :: real

definition DEFAULT_PARAMS :: "string \<rightharpoonup> van_params" where
  "DEFAULT_PARAMS = map_of
     [(''Small Van'',
         \<lparr>mpg_std = 54.3, mpg_under = 51.0, tyre_cost_std = 240.0, tyre_cost_under = 283.2\<rparr>),
      (''Medium Van'',
         \<lparr>mpg_std = 44.8, mpg_under = 42.1, tyre_cost_std = 320.0, tyre_cost_under = 377.6\<rparr>),
      (''Large Van'',
         \<lparr>mpg_std = 40.9, mpg_under = 38.4, tyre_cost_std = 380.0, tyre_cost_under = 448.4\<rparr>),
      (''Long Wheelbase Van'',
         \<lparr>mpg_std = 32.5, mpg_under = 30.6, tyre_cost_std = 380.0, tyre_cost_under = 448.4\<rparr>)]"

definition DEFAULT_TYRE_LIFESPAN_MILES :: int where
  "DEFAULT_TYRE_LIFESPAN_MILES = 20000"

subsection \<open>Helper functions\<close>

text \<open>
  \<^verbatim>\<open>calculate_extra_fuel_cost_10k(mpg_std, mpg_under, price_per_litre)\<close>, lines 29 to 37:
  the guard returns 0; otherwise two divisions, two products and their difference.
\<close>

definition calculate_extra_fuel_cost_10k :: "real \<Rightarrow> real \<Rightarrow> real \<Rightarrow> py_error + real" where
  "calculate_extra_fuel_cost_10k mpg_std' mpg_under' price_per_litre =
     (if mpg_std' \<le> 0 \<or> mpg_under' \<le> 0 \<or> price_per_litre \<le> 0 then Inr 0
      else
        case truediv 10000 mpg_std' of
          Inl e \<Rightarrow> Inl e
        | Inr gallons_std \<Rightarrow>
            (case truediv 10000 mpg_under' of
               Inl e \<Rightarrow> Inl e
             | Inr gallons_under \<Rightarrow>
                 (let cost_std = gallons_std * LITRES_PER_GALLON * price_per_litre;
                      cost_under = gallons_under * LITRES_PER_GALLON * price_per_litre
                  in Inr (cost_under - cost_std))))"

text \<open>
  \<^verbatim>\<open>calculate_extra_tyre_cost_10k(tyre_cost_std, tyre_cost_under, lifespan_miles)\<close>, lines 39
  to 45: the guard looks at the lifespan only; the result is the cost difference divided by
  \<^verbatim>\<open>lifespan_miles / 10000\<close>.
\<close>

definition calculate_extra_tyre_cost_10k :: "real \<Rightarrow> real \<Rightarrow> real \<Rightarrow> py_error + real" where
  "calculate_extra_tyre_cost_10k tyre_cost_std' tyre_cost_under' lifespan_miles =
     (if lifespan_miles \<le> 0 then Inr 0
      else
        (let cost_diff_lifespan = tyre_cost_under' - tyre_cost_std'
         in case truediv lifespan_miles 10000 of
              Inl e \<Rightarrow> Inl e
            | Inr cycles \<Rightarrow> truediv cost_diff_lifespan cycles))"

subsection \<open>Processing one van type\<close>

text \<open>
  \<^verbatim>\<open>process_van_type\<close>, lines 85 to 110. The function reads the catalog first (line 87), so
  an unknown name raises before anything else happens. It writes the module-level dictionary
  \<^verbatim>\<open>savings_per_10k_summary\<close>; the model takes that dictionary and returns it updated,
  together with the returned annual saving.
\<close>

type_synonym summary = "string \<rightharpoonup> real"

definition process_van_type ::
  "string \<Rightarrow> real \<Rightarrow> int \<Rightarrow> int \<Rightarrow> summary \<Rightarrow> py_error + (real \<times> summary)" where
  "process_van_type van_type_name diesel_price count miles savings_per_10k_summary =
     (case DEFAULT_PARAMS van_type_name of
        None \<Rightarrow> Inl (KeyError van_type_name)
      | Some params \<Rightarrow>
          (let tyre_lifespan = DEFAULT_TYRE_LIFESPAN_MILES in
           if count > 0 \<and> miles > 0 then
             case calculate_extra_fuel_cost_10k (mpg_std params) (mpg_under params) diesel_price of
               Inl e \<Rightarrow> Inl e
             | Inr extra_fuel_cost \<Rightarrow>
                 (case calculate_extra_tyre_cost_10k (tyre_cost_std params)
                         (tyre_cost_under params) (of_int tyre_lifespan) of
                    Inl e \<Rightarrow> Inl e
                  | Inr extra_tyre_cost \<Rightarrow>
                      (let total_extra_cost_10k = extra_fuel_cost + extra_tyre_cost;
                           summary1 = savings_per_10k_summary(van_type_name \<mapsto> total_extra_cost_10k)
                       in case truediv (of_int miles) 10000 of
                            Inl e \<Rightarrow> Inl e
                          | Inr q \<Rightarrow>
                              (let annual_savings = q * total_extra_cost_10k * of_int count
                               in Inr (annual_savings, summary1))))
           else Inr (0, savings_per_10k_summary(van_type_name \<mapsto> 0))))"

subsection \<open>The fleet total\<close>

text \<open>
  Lines 78 to 116: \<^verbatim>\<open>total_fleet_savings = 0\<close>, an empty summary, and four statements
  \<^verbatim>\<open>total_fleet_savings += process_van_type(name, user_diesel_price, column)\<close>, in the order
  Small, Large, Medium, Long Wheelbase. \<open>add_van_type\<close> is one such statement on the pair
  of the running total and the summary; \<open>inputs name\<close> is what the two widgets of that
  van type hold (count, miles). An exception ends the script.
\<close>

type_synonym fleet_inputs = "string \<Rightarrow> int \<times> int"

definition add_van_type ::
  "real \<Rightarrow> fleet_inputs \<Rightarrow> string \<Rightarrow> real \<times> summary \<Rightarrow> py_error + (real \<times> summary)" where
  "add_van_type diesel_price inputs van_type_name st =
     (case process_van_type van_type_name diesel_price
             (fst (inputs van_type_name)) (snd (inputs van_type_name)) (snd st) of
        Inl e \<Rightarrow> Inl e
      | Inr (annual_savings, summary1) \<Rightarrow> Inr (fst st + annual_savings, summary1))"

definition fleet_script :: "real \<Rightarrow> fleet_inputs \<Rightarrow> py_error + (real \<times> summary)" where
  "fleet_script user_diesel_price inputs =
     (case add_van_type user_diesel_price inputs ''Small Van'' (0, Map.empty) of
        Inl e \<Rightarrow> Inl e
      | Inr st1 \<Rightarrow>
     (case add_van_type user_diesel_price inputs ''Large Van'' st1 of
        Inl e \<Rightarrow> Inl e
      | Inr st2 \<Rightarrow>
     (case add_van_type user_diesel_price inputs ''Medium Van'' st2 of
        Inl e \<Rightarrow> Inl e
      | Inr st3 \<Rightarrow> add_van_type user_diesel_price inputs ''Long Wheelbase Van'' st3)))"

section \<open>Binary64 arithmetic\<close>

text \<open>
  A Python float is a finite number, an infinity or NaN. \<open>Fin a\<close> carries the value of a
  finite float; the two zeros of IEEE 754 are both \<open>Fin 0\<close>, which the source cannot tell
  apart (it compares with \<^verbatim>\<open><=\<close> and divides, and Python raises on either zero).
\<close>

datatype f64 = Fin real | PInf | NInf | NaN

text \<open>
  Rounding to nearest, ties to even. The finite binary64 numbers are the multiples
  \<open>m * 2 ^ k / 2 ^ 1074\<close> with \<open>\<bar>m\<bar> < 2 ^ 53\<close> and \<open>k \<le> 2045\<close>. For a real \<open>x\<close>,
  \<open>ulp_shift x\<close> is the \<open>k\<close> of its binade (0 for the subnormal range and the first normal
  binade), \<open>nearest x\<close> the multiple of \<open>2 ^ k / 2 ^ 1074\<close> nearest to \<open>x\<close>, and \<open>rnd x\<close> the
  float an operation with exact result \<open>x\<close> returns: an infinity when \<open>nearest x\<close> reaches
  \<open>2 ^ 1024\<close>.
\<close>

definition round_even :: "real \<Rightarrow> int" where
  "round_even t =
     (let f = \<lfloor>t\<rfloor>; d = t - of_int f
      in if d < 1 / 2 then f else if 1 / 2 < d then f + 1 else if even f then f else f + 1)"

definition scale :: real where
  "scale = 2 ^ 1074"

definition ulp_shift :: "real \<Rightarrow> nat" where
  "ulp_shift x = nat (bitlen \<lfloor>\<bar>x\<bar> * scale\<rfloor> - 53)"

definition nearest :: "real \<Rightarrow> real" where
  "nearest x = of_int (round_even (x * scale / 2 ^ ulp_shift x)) * 2 ^ ulp_shift x / scale"

definition rnd :: "real \<Rightarrow> f64" where
  "rnd x =
     (let y = nearest x
      in if 2 ^ 1024 \<le> y then PInf else if y \<le> - (2 ^ 1024) then NInf else Fin y)"

definition eps :: real where
  "eps = 1 / 2 ^ 53"

text \<open>
  The operations the two helper functions use: the comparison \<^verbatim>\<open><=\<close> (false on NaN),
  \<^verbatim>\<open>-\<close>, \<^verbatim>\<open>*\<close> and \<^verbatim>\<open>/\<close>. Python's float division raises \<^verbatim>\<open>ZeroDivisionError\<close> whenever
  the divisor is zero, whatever the dividend; multiplication and subtraction never raise.
\<close>

fun fle :: "f64 \<Rightarrow> f64 \<Rightarrow> bool" where
  "fle (Fin a) (Fin b) = (a \<le> b)"
| "fle (Fin a) PInf = True"
| "fle (Fin a) NInf = False"
| "fle PInf (Fin b) = False"
| "fle PInf PInf = True"
| "fle PInf NInf = False"
| "fle NInf (Fin b) = True"
| "fle NInf PInf = True"
| "fle NInf NInf = True"
| "fle NaN y = False"
| "fle x NaN = False"

fun fsub :: "f64 \<Rightarrow> f64 \<Rightarrow> f64" where
  "fsub (Fin a) (Fin b) = rnd (a - b)"
| "fsub (Fin a) PInf = NInf"
| "fsub (Fin a) NInf = PInf"
| "fsub PInf (Fin b) = PInf"
| "fsub PInf NInf = PInf"
| "fsub PInf PInf = NaN"
| "fsub NInf (Fin b) = NInf"
| "fsub NInf PInf = NInf"
| "fsub NInf NInf = NaN"
| "fsub NaN y = NaN"
| "fsub x NaN = NaN"

fun fmul :: "f64 \<Rightarrow> f64 \<Rightarrow> f64" where
  "fmul (Fin a) (Fin b) = rnd (a * b)"
| "fmul (Fin a) PInf = (if a = 0 then NaN else if 0 < a then PInf else NInf)"
| "fmul (Fin a) NInf = (if a = 0 then NaN else if 0 < a then NInf else PInf)"
| "fmul PInf (Fin b) = (if b = 0 then NaN else if 0 < b then PInf else NInf)"
| "fmul NInf (Fin b) = (if b = 0 then NaN else if 0 < b then NInf else PInf)"
| "fmul PInf PInf = PInf"
| "fmul PInf NInf = NInf"
| "fmul NInf PInf = NInf"
| "fmul NInf NInf = PInf"
| "fmul NaN y = NaN"
| "fmul x NaN = NaN"

fun fdiv :: "f64 \<Rightarrow> f64 \<Rightarrow> py_error + f64" where
  "fdiv x (Fin b) =
     (if b = 0 then Inl ZeroDivisionError
      else Inr (case x of
                  Fin a \<Rightarrow> rnd (a / b)
                | PInf \<Rightarrow> (if 0 < b then PInf else NInf)
                | NInf \<Rightarrow> (if 0 < b then NInf else PInf)
                | NaN \<Rightarrow> NaN))"
| "fdiv x PInf = Inr (case x of Fin a \<Rightarrow> Fin 0 | PInf \<Rightarrow> NaN | NInf \<Rightarrow> NaN | NaN \<Rightarrow> NaN)"
| "fdiv x NInf = Inr (case x of Fin a \<Rightarrow> Fin 0 | PInf \<Rightarrow> NaN | NInf \<Rightarrow> NaN | NaN \<Rightarrow> NaN)"
| "fdiv x NaN = Inr NaN"

subsection \<open>The helper functions on binary64\<close>

text \<open>
  The same two functions, lines 29 to 45, with the operations above. The literal
  \<^verbatim>\<open>4.54609\<close> is the float nearest to it, the integer literal \<^verbatim>\<open>10000\<close> converts exactly,
  and \<^verbatim>\<open>return 0\<close> is the number 0.
\<close>

definition LITRES_PER_GALLON_f64 :: f64 where
  "LITRES_PER_GALLON_f64 = rnd 4.54609"

definition calculate_extra_fuel_cost_10k_f64 :: "f64 \<Rightarrow> f64 \<Rightarrow> f64 \<Rightarrow> py_error + f64" where
  "calculate_extra_fuel_cost_10k_f64 mpg_std' mpg_under' price_per_litre =
     (if fle mpg_std' (Fin 0) \<or> fle mpg_under' (Fin 0) \<or> fle price_per_litre (Fin 0)
      then Inr (Fin 0)
      else
        case fdiv (Fin 10000) mpg_std' of
          Inl e \<Rightarrow> Inl e
        | Inr gallons_std \<Rightarrow>
            (case fdiv (Fin 10000) mpg_under' of
               Inl e \<Rightarrow> Inl e
             | Inr gallons_under \<Rightarrow>
                 (let cost_std = fmul (fmul gallons_std LITRES_PER_GALLON_f64) price_per_litre;
                      cost_under = fmul (fmul gallons_under LITRES_PER_GALLON_f64) price_per_litre
                  in Inr (fsub cost_under cost_std))))"

definition calculate_extra_tyre_cost_10k_f64 :: "f64 \<Rightarrow> f64 \<Rightarrow> f64 \<Rightarrow> py_error + f64" where
  "calculate_extra_tyre_cost_10k_f64 tyre_cost_std' tyre_cost_under' lifespan_miles =
     (if fle lifespan_miles (Fin 0) then Inr (Fin 0)
      else
        (let cost_diff_lifespan = fsub tyre_cost_under' tyre_cost_std'
         in case fdiv lifespan_miles (Fin 10000) of
              Inl e \<Rightarrow> Inl e
            | Inr cycles \<Rightarrow> fdiv cost_diff_lifespan cycles))"

section \<open>Properties\<close>

subsection \<open>Basic facts\<close>

lemma fuel_guarded:
  "mpg_s \<le> 0 \<or> mpg_u \<le> 0 \<or> price \<le> 0 \<Longrightarrow> calculate_extra_fuel_cost_10k mpg_s mpg_u price = Inr 0"
  by (simp add: calculate_extra_fuel_cost_10k_def)

lemma fuel_value:
  assumes "0 < mpg_s" "0 < mpg_u" "0 < price"
  shows "calculate_extra_fuel_cost_10k mpg_s mpg_u price =
           Inr (10000 / mpg_u * LITRES_PER_GALLON * price - 10000 / mpg_s * LITRES_PER_GALLON * price)"
  using assms by (simp add: calculate_extra_fuel_cost_10k_def truediv_def)

lemma tyre_guarded: "lifespan \<le> 0 \<Longrightarrow> calculate_extra_tyre_cost_10k c_s c_u lifespan = Inr 0"
  by (simp add: calculate_extra_tyre_cost_10k_def)

lemma tyre_value:
  assumes "0 < lifespan"
  shows "calculate_extra_tyre_cost_10k c_s c_u lifespan = Inr ((c_u - c_s) / (lifespan / 10000))"
  using assms by (simp add: calculate_extra_tyre_cost_10k_def truediv_def)

text \<open>
  In the exact reading neither helper raises: the guards leave no zero divisor. \<open>process_van_type\<close> raises on a
  name outside the catalog and only there, and what it returns follows the two branches of
  line 97.
\<close>

lemma fuel_returns: "\<exists>c. calculate_extra_fuel_cost_10k a b price = Inr c"
proof (cases "a \<le> 0 \<or> b \<le> 0 \<or> price \<le> 0")
  case True
  then show ?thesis by (simp add: fuel_guarded)
next
  case False
  then show ?thesis by (simp add: fuel_value)
qed

lemma tyre_returns: "\<exists>c. calculate_extra_tyre_cost_10k a b lifespan = Inr c"
proof (cases "lifespan \<le> 0")
  case True
  then show ?thesis by (simp add: tyre_guarded)
next
  case False
  then show ?thesis by (simp add: tyre_value)
qed

lemma process_van_type_unknown:
  "DEFAULT_PARAMS name = None \<Longrightarrow> process_van_type name price count miles sm = Inl (KeyError name)"
  by (simp add: process_van_type_def)

lemma process_van_type_idle:
  assumes "DEFAULT_PARAMS name = Some p" and "\<not> (0 < count \<and> 0 < miles)"
  shows "process_van_type name price count miles sm = Inr (0, sm(name \<mapsto> 0))"
  using assms by (auto simp: process_van_type_def)

lemma process_van_type_active:
  assumes "DEFAULT_PARAMS name = Some p" and "0 < count" and "0 < miles"
    and "calculate_extra_fuel_cost_10k (mpg_std p) (mpg_under p) price = Inr f"
    and "calculate_extra_tyre_cost_10k (tyre_cost_std p) (tyre_cost_under p)
           (of_int DEFAULT_TYRE_LIFESPAN_MILES) = Inr t"
  shows "process_van_type name price count miles sm =
           Inr (of_int miles / 10000 * (f + t) * of_int count, sm(name \<mapsto> f + t))"
  using assms by (simp add: process_van_type_def truediv_def Let_def)

lemma process_van_type_returns:
  assumes "DEFAULT_PARAMS name = Some p"
  shows "\<exists>a u. process_van_type name price count miles sm = Inr (a, sm(name \<mapsto> u))"
proof (cases "0 < count \<and> 0 < miles")
  case True
  obtain f where f: "calculate_extra_fuel_cost_10k (mpg_std p) (mpg_under p) price = Inr f"
    using fuel_returns by blast
  obtain t where t: "calculate_extra_tyre_cost_10k (tyre_cost_std p) (tyre_cost_under p)
           (of_int DEFAULT_TYRE_LIFESPAN_MILES) = Inr t"
    using tyre_returns by blast
  from True process_van_type_active [OF assms _ _ f t] show ?thesis by blast
next
  case False
  from process_van_type_idle [OF assms False] show ?thesis by blast
qed

lemma process_van_type_error:
  assumes "process_van_type name price count miles sm = Inl e"
  shows "DEFAULT_PARAMS name = None \<and> e = KeyError name"
proof (cases "DEFAULT_PARAMS name")
  case None
  with assms show ?thesis by (simp add: process_van_type_unknown)
next
  case (Some p)
  from process_van_type_returns [OF Some, of price count miles sm] assms show ?thesis by auto
qed

lemma add_van_type_unknown:
  "DEFAULT_PARAMS name = None \<Longrightarrow> add_van_type price inputs name st = Inl (KeyError name)"
  by (simp add: add_van_type_def process_van_type_unknown)

lemma add_van_type_returns:
  assumes "DEFAULT_PARAMS name = Some p"
  shows "\<exists>a sm. process_van_type name price (fst (inputs name)) (snd (inputs name)) (snd st) = Inr (a, sm)
           \<and> add_van_type price inputs name st = Inr (fst st + a, sm)"
proof -
  from process_van_type_returns [OF assms] obtain a u where
    "process_van_type name price (fst (inputs name)) (snd (inputs name)) (snd st)
       = Inr (a, (snd st)(name \<mapsto> u))"
    by blast
  then show ?thesis by (simp add: add_van_type_def)
qed

lemma add_van_type_error:
  assumes "add_van_type price inputs name st = Inl e"
  shows "DEFAULT_PARAMS name = None \<and> e = KeyError name"
proof (cases "DEFAULT_PARAMS name")
  case None
  with assms show ?thesis by (simp add: add_van_type_unknown)
next
  case (Some p)
  from add_van_type_returns [OF Some, of price inputs st] assms show ?thesis by auto
qed


text \<open>
  The Small Van figures at a diesel price of 1.51, as exact fractions: the fuel delta is
  \<open>755105549 / 9231000\<close> (81.8011...), the tyre delta \<open>21.6\<close> and their sum
  \<open>954495149 / 9231000\<close> (103.4011...).
\<close>

lemma small_van_params:
  "DEFAULT_PARAMS ''Small Van'' =
     Some \<lparr>mpg_std = 54.3, mpg_under = 51.0, tyre_cost_std = 240.0, tyre_cost_under = 283.2\<rparr>"
  by (simp add: DEFAULT_PARAMS_def)

lemma small_van_fuel:
  "calculate_extra_fuel_cost_10k 54.3 51.0 1.51 = Inr (755105549 / 9231000)"
  by (simp add: fuel_value LITRES_PER_GALLON_def)

lemma small_van_tyre:
  "calculate_extra_tyre_cost_10k 240.0 283.2 20000 = Inr 21.6"
  by (simp add: tyre_value)




subsection \<open>Rounding to binary64\<close>

text \<open>
  What the claims need of the rounding: it is odd and monotone, exact on binary64 numbers,
  within half a unit in the last place of its argument (a relative error of at most
  \<open>eps = 1 / 2 ^ 53\<close> from \<open>1 / 2 ^ 1022\<close> on), finite below \<open>2 ^ 1024 - 2 ^ 971\<close>, infinite from
  \<open>2 ^ 1024\<close> on and 0 up to \<open>1 / 2 ^ 1075\<close>.
\<close>

lemma round_even_cases: "round_even t = \<lfloor>t\<rfloor> \<or> round_even t = \<lfloor>t\<rfloor> + 1"
  by (simp add: round_even_def Let_def)

lemma round_even_err: "\<bar>of_int (round_even t) - t\<bar> \<le> 1 / 2"
proof -
  have "of_int \<lfloor>t\<rfloor> \<le> t" and "t < of_int \<lfloor>t\<rfloor> + 1"
    by linarith+
  then show ?thesis
    unfolding round_even_def Let_def by auto
qed

lemma round_even_of_int: "round_even (of_int n) = n"
  by (simp add: round_even_def)

lemma round_even_mono:
  assumes "t \<le> t'"
  shows "round_even t \<le> round_even t'"
proof (cases "\<lfloor>t\<rfloor> = \<lfloor>t'\<rfloor>")
  case True
  with assms show ?thesis
    unfolding round_even_def Let_def by auto
next
  case False
  with assms have "\<lfloor>t\<rfloor> + 1 \<le> \<lfloor>t'\<rfloor>"
    using floor_mono [of t t'] by linarith
  moreover have "round_even t \<le> \<lfloor>t\<rfloor> + 1"
    using round_even_cases [of t] by auto
  moreover have "\<lfloor>t'\<rfloor> \<le> round_even t'"
    using round_even_cases [of t'] by auto
  ultimately show ?thesis by linarith
qed

lemma round_even_uminus: "round_even (- t) = - round_even t"
proof (cases "t \<in> \<int>")
  case True
  then obtain n where "t = of_int n" by (auto elim: Ints_cases)
  then have "round_even t = n" and "round_even (- t) = - n"
    using round_even_of_int [of n] round_even_of_int [of "- n"] by simp_all
  then show ?thesis by simp
next
  case False
  then have ne: "t \<noteq> of_int \<lfloor>t\<rfloor>"
    by (metis Ints_of_int)
  then have fl: "\<lfloor>- t\<rfloor> = - \<lfloor>t\<rfloor> - 1"
    by (simp add: floor_minus ceiling_altdef)
  have "of_int \<lfloor>t\<rfloor> \<le> t" and "t < of_int \<lfloor>t\<rfloor> + 1"
    by linarith+
  with ne show ?thesis
    unfolding round_even_def Let_def fl by auto
qed

lemma round_even_ge: "of_int n \<le> t \<Longrightarrow> n \<le> round_even t"
  using round_even_mono [of "of_int n" t] by (simp add: round_even_of_int)

lemma round_even_le: "t \<le> of_int n \<Longrightarrow> round_even t \<le> n"
  using round_even_mono [of t "of_int n"] by (simp add: round_even_of_int)

lemma scale_pos: "0 < scale"
  by (simp add: scale_def)

lemma ulp_shift_lower:
  assumes "0 < ulp_shift x"
  shows "2 ^ (ulp_shift x + 52) \<le> \<bar>x\<bar> * scale"
proof -
  let ?N = "\<lfloor>\<bar>x\<bar> * scale\<rfloor>"
  from assms have "int (ulp_shift x) + 53 \<le> bitlen ?N"
    by (simp add: ulp_shift_def)
  then have "(2::int) ^ (nat (int (ulp_shift x) + 53) - 1) \<le> ?N"
    using bitlen_ge_iff_power [of "int (ulp_shift x) + 53" ?N] by simp
  moreover have "nat (int (ulp_shift x) + 53) - 1 = ulp_shift x + 52"
    by simp
  ultimately have "(2::int) ^ (ulp_shift x + 52) \<le> ?N"
    by simp
  then have "(2::real) ^ (ulp_shift x + 52) \<le> of_int ?N"
    by (metis of_int_le_iff of_int_numeral of_int_power)
  also have "\<dots> \<le> \<bar>x\<bar> * scale"
    by simp
  finally show ?thesis .
qed

lemma ulp_shift_upper: "\<bar>x\<bar> * scale < 2 ^ (ulp_shift x + 53)"
proof -
  let ?N = "\<lfloor>\<bar>x\<bar> * scale\<rfloor>"
  have "bitlen ?N \<le> int (ulp_shift x) + 53"
    by (simp add: ulp_shift_def)
  then have "?N < 2 ^ nat (int (ulp_shift x) + 53)"
    using bitlen_le_iff_power [of ?N "int (ulp_shift x) + 53"] by simp
  moreover have "nat (int (ulp_shift x) + 53) = ulp_shift x + 53"
    by simp
  ultimately have "?N + 1 \<le> 2 ^ (ulp_shift x + 53)"
    by simp
  then have "of_int (?N + 1) \<le> (2::real) ^ (ulp_shift x + 53)"
    by (metis of_int_le_iff of_int_numeral of_int_power)
  moreover have "\<bar>x\<bar> * scale < of_int (?N + 1)"
    by linarith
  ultimately show ?thesis by linarith
qed

lemma ulp_shift_eq:
  assumes "2 ^ (j + 52) \<le> \<bar>x\<bar> * scale" and "\<bar>x\<bar> * scale < 2 ^ (j + 53)"
  shows "ulp_shift x = j"
proof (rule ccontr)
  assume ne: "ulp_shift x \<noteq> j"
  show False
  proof (cases "ulp_shift x < j")
    case True
    then have "ulp_shift x + 53 \<le> j + 52" by simp
    then have "(2::real) ^ (ulp_shift x + 53) \<le> 2 ^ (j + 52)"
      by (rule power_increasing) simp
    with ulp_shift_upper [of x] assms(1) show False by linarith
  next
    case False
    with ne have gt: "j < ulp_shift x" by simp
    then have "0 < ulp_shift x" by simp
    from ulp_shift_lower [OF this] have "2 ^ (ulp_shift x + 52) \<le> \<bar>x\<bar> * scale" .
    moreover from gt have "j + 53 \<le> ulp_shift x + 52" by simp
    then have "(2::real) ^ (j + 53) \<le> 2 ^ (ulp_shift x + 52)"
      by (rule power_increasing) simp
    ultimately show False using assms(2) by linarith
  qed
qed


lemma ulp_shift_uminus: "ulp_shift (- x) = ulp_shift x"
  by (simp add: ulp_shift_def)

lemma ulp_shift_mono:
  assumes "\<bar>x\<bar> \<le> \<bar>y\<bar>"
  shows "ulp_shift x \<le> ulp_shift y"
proof (rule ccontr)
  assume "\<not> ulp_shift x \<le> ulp_shift y"
  then have gt: "ulp_shift y < ulp_shift x" by simp
  then have "0 < ulp_shift x" by simp
  from ulp_shift_lower [OF this] have "2 ^ (ulp_shift x + 52) \<le> \<bar>x\<bar> * scale" .
  also from assms scale_pos have "\<dots> \<le> \<bar>y\<bar> * scale"
    by (simp add: mult_right_mono)
  also have "\<dots> < 2 ^ (ulp_shift y + 53)"
    by (rule ulp_shift_upper)
  also from gt have "ulp_shift y + 53 \<le> ulp_shift x + 52" by simp
  then have "(2::real) ^ (ulp_shift y + 53) \<le> 2 ^ (ulp_shift x + 52)"
    by (rule power_increasing) simp
  finally show False by simp
qed

lemma nearest_uminus: "nearest (- x) = - nearest x"
  by (simp add: nearest_def ulp_shift_uminus round_even_uminus)

lemma nearest_zero: "nearest 0 = 0"
  using round_even_of_int [of 0] by (simp add: nearest_def)

lemma nearest_err: "\<bar>nearest x - x\<bar> \<le> 2 ^ ulp_shift x / (2 * scale)"
proof -
  define u where "u = 2 ^ ulp_shift x / scale"
  define t where "t = x * scale / 2 ^ ulp_shift x"
  have u: "0 < u" using scale_pos by (simp add: u_def)
  have x: "x = t * u" using scale_pos by (simp add: t_def u_def)
  have n: "nearest x = of_int (round_even t) * u"
    by (simp add: nearest_def t_def u_def)
  have "of_int (round_even t) * u - t * u = (of_int (round_even t) - t) * u"
    by (simp add: algebra_simps)
  with n x have "nearest x - x = (of_int (round_even t) - t) * u"
    by simp
  then have "\<bar>nearest x - x\<bar> = \<bar>of_int (round_even t) - t\<bar> * u"
    using u by (simp add: abs_mult)
  also have "\<dots> \<le> 1 / 2 * u"
    using round_even_err [of t] u by (intro mult_right_mono) simp_all
  finally show ?thesis by (simp add: u_def)
qed

lemma nearest_nonneg:
  assumes "0 \<le> x"
  shows "0 \<le> nearest x"
proof -
  from assms scale_pos have "of_int 0 \<le> x * scale / 2 ^ ulp_shift x" by simp
  from round_even_ge [OF this] have "0 \<le> round_even (x * scale / 2 ^ ulp_shift x)" .
  with scale_pos show ?thesis by (simp add: nearest_def)
qed

lemma nearest_upper:
  assumes "0 \<le> x"
  shows "nearest x \<le> 2 ^ (ulp_shift x + 53) / scale"
proof -
  let ?k = "ulp_shift x"
  from ulp_shift_upper [of x] assms have "x * scale < 2 ^ (?k + 53)" by simp
  then have "x * scale / 2 ^ ?k \<le> 2 ^ 53"
    by (simp add: field_simps power_add)
  then have "x * scale / 2 ^ ?k \<le> of_int (2 ^ 53)" by simp
  from round_even_le [OF this] have "round_even (x * scale / 2 ^ ?k) \<le> 2 ^ 53" .
  then have "(of_int (round_even (x * scale / 2 ^ ?k)) :: real) \<le> 2 ^ 53"
    by (metis of_int_le_iff of_int_numeral of_int_power)
  then have "of_int (round_even (x * scale / 2 ^ ?k)) * 2 ^ ?k \<le> (2::real) ^ 53 * 2 ^ ?k"
    by (intro mult_right_mono) simp_all
  then show ?thesis
    using scale_pos by (simp add: nearest_def power_add divide_right_mono mult.commute)
qed

lemma nearest_lower:
  assumes "0 \<le> x" and "0 < ulp_shift x"
  shows "2 ^ (ulp_shift x + 52) / scale \<le> nearest x"
proof -
  let ?k = "ulp_shift x"
  from ulp_shift_lower [OF assms(2)] assms(1) have "2 ^ (?k + 52) \<le> x * scale" by simp
  then have "2 ^ 52 \<le> x * scale / 2 ^ ?k"
    by (simp add: field_simps power_add)
  then have "of_int (2 ^ 52) \<le> x * scale / 2 ^ ?k" by simp
  from round_even_ge [OF this] have "2 ^ 52 \<le> round_even (x * scale / 2 ^ ?k)" .
  then have "(2::real) ^ 52 \<le> of_int (round_even (x * scale / 2 ^ ?k))"
    by (metis of_int_le_iff of_int_numeral of_int_power)
  then have "(2::real) ^ 52 * 2 ^ ?k \<le> of_int (round_even (x * scale / 2 ^ ?k)) * 2 ^ ?k"
    by (intro mult_right_mono) simp_all
  then show ?thesis
    using scale_pos by (simp add: nearest_def power_add divide_right_mono mult.commute)
qed

lemma nearest_mono_nonneg:
  assumes "0 \<le> x" and "x \<le> y"
  shows "nearest x \<le> nearest y"
proof (cases "ulp_shift x = ulp_shift y")
  case True
  from assms scale_pos have "x * scale / 2 ^ ulp_shift y \<le> y * scale / 2 ^ ulp_shift y"
    by (simp add: divide_right_mono mult_right_mono)
  from round_even_mono [OF this]
  have "(of_int (round_even (x * scale / 2 ^ ulp_shift y)) :: real)
          \<le> of_int (round_even (y * scale / 2 ^ ulp_shift y))"
    by simp
  then have "of_int (round_even (x * scale / 2 ^ ulp_shift y)) * 2 ^ ulp_shift y / scale
          \<le> of_int (round_even (y * scale / 2 ^ ulp_shift y)) * 2 ^ ulp_shift y / scale"
    using scale_pos by (intro divide_right_mono mult_right_mono) simp_all
  with True show ?thesis by (simp add: nearest_def)
next
  case False
  from assms have "\<bar>x\<bar> \<le> \<bar>y\<bar>" by simp
  from ulp_shift_mono [OF this] False have lt: "ulp_shift x < ulp_shift y" by simp
  then have pos: "0 < ulp_shift y" by simp
  from assms have y: "0 \<le> y" by simp
  have "nearest x \<le> 2 ^ (ulp_shift x + 53) / scale"
    by (rule nearest_upper [OF assms(1)])
  also from lt have "ulp_shift x + 53 \<le> ulp_shift y + 52" by simp
  then have "(2::real) ^ (ulp_shift x + 53) \<le> 2 ^ (ulp_shift y + 52)"
    by (rule power_increasing) simp
  then have "(2::real) ^ (ulp_shift x + 53) / scale \<le> 2 ^ (ulp_shift y + 52) / scale"
    using scale_pos by (simp add: divide_right_mono)
  also have "\<dots> \<le> nearest y"
    by (rule nearest_lower [OF y pos])
  finally show ?thesis .
qed

lemma nearest_mono:
  assumes "x \<le> y"
  shows "nearest x \<le> nearest y"
proof (cases "0 \<le> x")
  case True
  then show ?thesis using assms by (rule nearest_mono_nonneg)
next
  case neg: False
  show ?thesis
  proof (cases "0 \<le> y")
    case True
    from neg have "0 \<le> nearest (- x)" by (intro nearest_nonneg) simp
    then have "nearest x \<le> 0" by (simp add: nearest_uminus)
    also have "0 \<le> nearest y" using True by (rule nearest_nonneg)
    finally show ?thesis .
  next
    case False
    with assms have "0 \<le> - y" and "- y \<le> - x" by simp_all
    from nearest_mono_nonneg [OF this] show ?thesis by (simp add: nearest_uminus)
  qed
qed


lemma nearest_exact:
  assumes "x * scale / 2 ^ ulp_shift x = of_int n"
  shows "nearest x = x"
proof -
  have "nearest x = of_int n * 2 ^ ulp_shift x / scale"
    by (simp add: nearest_def assms round_even_of_int)
  also have "\<dots> = x * scale / 2 ^ ulp_shift x * 2 ^ ulp_shift x / scale"
    by (simp only: assms)
  also have "\<dots> = x"
    using scale_pos by simp
  finally show ?thesis .
qed

lemma nearest_grid:
  assumes "\<bar>M\<bar> < 2 ^ 53"
  shows "nearest (of_int M * 2 ^ j / scale) = of_int M * 2 ^ j / scale"
proof -
  define x :: real where "x = of_int M * 2 ^ j / scale"
  have xs: "x * scale = of_int M * 2 ^ j"
    using scale_pos by (simp add: x_def)
  have axs: "\<bar>x\<bar> * scale = of_int \<bar>M\<bar> * 2 ^ j"
    using scale_pos by (simp add: x_def abs_mult)
  from assms have "(of_int \<bar>M\<bar> :: real) < 2 ^ 53"
    by (metis of_int_less_iff of_int_numeral of_int_power)
  then have lt: "\<bar>x\<bar> * scale < 2 ^ (j + 53)"
    unfolding axs by (simp add: power_add mult.commute)
  have le: "ulp_shift x \<le> j"
  proof (rule ccontr)
    assume "\<not> ulp_shift x \<le> j"
    then have gt: "j < ulp_shift x" by simp
    then have "0 < ulp_shift x" by simp
    from ulp_shift_lower [OF this] have "2 ^ (ulp_shift x + 52) \<le> \<bar>x\<bar> * scale" .
    moreover from gt have "j + 53 \<le> ulp_shift x + 52" by simp
    then have "(2::real) ^ (j + 53) \<le> 2 ^ (ulp_shift x + 52)"
      by (rule power_increasing) simp
    ultimately show False using lt by linarith
  qed
  then obtain d where j: "j = ulp_shift x + d"
    using le_Suc_ex by blast
  have "x * scale / 2 ^ ulp_shift x = of_int M * 2 ^ d"
    unfolding xs by (subst j) (simp add: power_add)
  also have "\<dots> = of_int (M * 2 ^ d)"
    by simp
  finally have "nearest x = x"
    by (rule nearest_exact)
  then show ?thesis by (simp add: x_def)
qed

lemma nearest_rel_err:
  assumes "2 ^ 52 \<le> \<bar>x\<bar> * scale"
  shows "\<bar>nearest x - x\<bar> \<le> \<bar>x\<bar> / 2 ^ 53"
proof -
  have "2 ^ ulp_shift x * 2 ^ 52 \<le> \<bar>x\<bar> * scale"
  proof (cases "ulp_shift x = 0")
    case True
    with assms show ?thesis by simp
  next
    case False
    then have "0 < ulp_shift x" by simp
    from ulp_shift_lower [OF this] show ?thesis by (simp add: power_add)
  qed
  then have "2 ^ ulp_shift x / (2 * scale) \<le> \<bar>x\<bar> / 2 ^ 53"
    using scale_pos by (simp add: field_simps)
  with nearest_err [of x] show ?thesis by linarith
qed

lemma nearest_err_below:
  assumes "\<bar>x\<bar> < 2 ^ 1024"
  shows "\<bar>nearest x - x\<bar> \<le> 2 ^ 970"
proof -
  have "ulp_shift x \<le> 2045"
  proof (rule ccontr)
    assume "\<not> ulp_shift x \<le> 2045"
    then have big: "2046 \<le> ulp_shift x" by simp
    then have "0 < ulp_shift x" by simp
    from ulp_shift_lower [OF this] have "2 ^ (ulp_shift x + 52) \<le> \<bar>x\<bar> * scale" .
    moreover from big have "2098 \<le> ulp_shift x + 52" by simp
    then have "(2::real) ^ 2098 \<le> 2 ^ (ulp_shift x + 52)"
      by (rule power_increasing) simp
    moreover from assms scale_pos have "\<bar>x\<bar> * scale < 2 ^ 1024 * scale"
      by (simp add: mult_strict_right_mono)
    moreover have "2 ^ 1024 * scale = 2 ^ 2098"
      by (simp add: scale_def)
    ultimately show False by linarith
  qed
  then have pw: "(2::real) ^ ulp_shift x \<le> 2 ^ 2045"
    by (rule power_increasing) simp
  from scale_pos have "0 \<le> 2 * scale" by simp
  from divide_right_mono [OF pw this]
  have "2 ^ ulp_shift x / (2 * scale) \<le> 2 ^ 2045 / (2 * scale)" .
  moreover have "2 ^ 2045 / (2 * scale) = 2 ^ 970"
    by (simp add: scale_def)
  ultimately show ?thesis
    using nearest_err [of x] by linarith
qed


lemma nearest_overflow:
  assumes "2 ^ 1024 \<le> x"
  shows "2 ^ 1024 \<le> nearest x"
proof -
  have "(2::real) ^ 1024 = of_int 1 * 2 ^ 2098 / scale"
    by (simp add: scale_def)
  moreover have "nearest (of_int 1 * 2 ^ 2098 / scale) = of_int 1 * 2 ^ 2098 / scale"
    by (rule nearest_grid) simp
  ultimately have "nearest (2 ^ 1024) = 2 ^ 1024" by simp
  with nearest_mono [OF assms] show ?thesis by simp
qed

lemma eps_pos: "0 < eps"
  by (simp add: eps_def)

lemma rnd_Fin:
  assumes "\<bar>nearest x\<bar> < 2 ^ 1024"
  shows "rnd x = Fin (nearest x)"
  using assms by (simp add: rnd_def Let_def abs_less_iff not_le)

lemma rnd_PInf:
  assumes "2 ^ 1024 \<le> x"
  shows "rnd x = PInf"
  using nearest_overflow [OF assms] by (simp add: rnd_def)

lemma rnd_zero: "rnd 0 = Fin 0"
  by (simp add: rnd_def nearest_zero)

lemma normal_scale:
  assumes "1 / 2 ^ 1022 \<le> \<bar>x\<bar>"
  shows "2 ^ 52 \<le> \<bar>x\<bar> * scale"
proof -
  have eq: "1 / 2 ^ 1022 * scale = 2 ^ 52"
    by (simp add: scale_def)
  from scale_pos have "0 \<le> scale" by simp
  from mult_right_mono [OF assms this] show ?thesis
    unfolding eq .
qed

lemma rnd_rel:
  assumes "1 / 2 ^ 1022 \<le> \<bar>x\<bar>" and "\<bar>x\<bar> \<le> 2 ^ 1023"
  shows "\<exists>y. rnd x = Fin y \<and> \<bar>y - x\<bar> \<le> eps * \<bar>x\<bar>"
proof -
  from nearest_rel_err [OF normal_scale [OF assms(1)]]
  have err: "\<bar>nearest x - x\<bar> \<le> eps * \<bar>x\<bar>"
    by (simp add: eps_def)
  have "eps * \<bar>x\<bar> \<le> 1 * \<bar>x\<bar>"
    by (intro mult_right_mono) (simp_all add: eps_def)
  with err have "\<bar>nearest x\<bar> \<le> 2 * \<bar>x\<bar>" by linarith
  also from assms(2) have "\<dots> \<le> 2 * 2 ^ 1023" by simp
  finally have "\<bar>nearest x\<bar> \<le> 2 ^ 1024" by simp
  moreover have "\<bar>nearest x\<bar> \<noteq> 2 ^ 1024"
  proof
    assume eq: "\<bar>nearest x\<bar> = 2 ^ 1024"
    from err have "\<bar>nearest x\<bar> \<le> \<bar>x\<bar> + eps * \<bar>x\<bar>" by linarith
    also have "\<dots> = (1 + eps) * \<bar>x\<bar>" by (simp add: algebra_simps)
    also from assms(2) eps_pos have "\<dots> \<le> (1 + eps) * 2 ^ 1023"
      by (intro mult_left_mono) simp_all
    also have "\<dots> < 2 ^ 1024" by (simp add: eps_def)
    finally show False using eq by simp
  qed
  ultimately have "\<bar>nearest x\<bar> < 2 ^ 1024" by linarith
  from rnd_Fin [OF this] err show ?thesis by blast
qed

lemma rnd_int:
  assumes "\<bar>M\<bar> < 2 ^ 53"
  shows "rnd (of_int M) = Fin (of_int M)"
proof -
  have x: "(of_int M :: real) = of_int M * 2 ^ 1074 / scale"
    by (simp add: scale_def)
  have "nearest (of_int M * 2 ^ 1074 / scale) = of_int M * 2 ^ 1074 / scale"
    using assms by (rule nearest_grid)
  then have n: "nearest (of_int M) = of_int M"
    using x by simp
  from assms have "(of_int \<bar>M\<bar> :: real) < 2 ^ 53"
    by (metis of_int_less_iff of_int_numeral of_int_power)
  also have "(2::real) ^ 53 < 2 ^ 1024"
    by (rule power_strict_increasing) simp_all
  finally have "\<bar>nearest (of_int M)\<bar> < 2 ^ 1024"
    by (simp add: n)
  from rnd_Fin [OF this] n show ?thesis by simp
qed



lemma round_even_eval:
  assumes "of_int m - 1 / 2 < t" and "t < of_int m + 1 / 2"
  shows "round_even t = m"
proof -
  from round_even_err [of t] assms
  have "\<bar>(of_int (round_even t) :: real) - of_int m\<bar> < 1" by linarith
  then have "\<bar>(of_int (round_even t - m) :: real)\<bar> < 1" by simp
  then have "\<bar>round_even t - m\<bar> < 1"
    by (metis of_int_abs of_int_less_iff of_int_1)
  then show ?thesis by simp
qed

lemma rnd_eval:
  assumes "2 ^ (j + 52) \<le> \<bar>x\<bar> * scale" and "\<bar>x\<bar> * scale < 2 ^ (j + 53)"
    and "of_int m - 1 / 2 < x * scale / 2 ^ j" and "x * scale / 2 ^ j < of_int m + 1 / 2"
    and "\<bar>of_int m * 2 ^ j / scale\<bar> < 2 ^ 1024"
  shows "rnd x = Fin (of_int m * 2 ^ j / scale)"
proof -
  from assms(1,2) have k: "ulp_shift x = j" by (rule ulp_shift_eq)
  from assms(3,4) have "round_even (x * scale / 2 ^ j) = m" by (rule round_even_eval)
  then have n: "nearest x = of_int m * 2 ^ j / scale"
    by (simp add: nearest_def k)
  with assms(5) have "\<bar>nearest x\<bar> < 2 ^ 1024" by simp
  from rnd_Fin [OF this] n show ?thesis by simp
qed

lemma cycles_for_11: "rnd (11 / 10000) = Fin (5072854620270127 / 2 ^ 62)"
  using rnd_eval [of 1012 "11 / 10000" 5072854620270127] by (simp add: scale_def)

lemma tyre_quotient_for_11:
  "rnd (1 / (5072854620270127 / 2 ^ 62)) = Fin (7996448202007272 / 2 ^ 43)"
  using rnd_eval [of 1031 "1 / (5072854620270127 / 2 ^ 62)" 7996448202007272]
  by (simp add: scale_def)

lemma stated_value_for_11: "rnd (10000 / 11) = Fin (7996448202007273 / 2 ^ 43)"
  using rnd_eval [of 1031 "10000 / 11" 7996448202007273] by (simp add: scale_def)

lemma fuel_f64_guarded:
  assumes "fle s (Fin 0) \<or> fle u (Fin 0) \<or> fle p (Fin 0)"
  shows "calculate_extra_fuel_cost_10k_f64 s u p = Inr (Fin 0)"
  using assms by (simp add: calculate_extra_fuel_cost_10k_f64_def)

lemma tyre_f64_guarded:
  assumes "fle l (Fin 0)"
  shows "calculate_extra_tyre_cost_10k_f64 ts tu l = Inr (Fin 0)"
  using assms by (simp add: calculate_extra_tyre_cost_10k_f64_def)

lemma rnd_not_NaN: "rnd x \<noteq> NaN"
  by (simp add: rnd_def Let_def)

lemma rnd_mono:
  assumes "x \<le> y"
  shows "fle (rnd x) (rnd y)"
  using nearest_mono [OF assms] by (simp add: rnd_def Let_def)

lemma rnd_nonneg:
  assumes "0 \<le> x"
  shows "fle (Fin 0) (rnd x)"
  using rnd_mono [OF assms] by (simp add: rnd_zero)

lemma rnd_between:
  assumes "of_int M \<le> x" and "x \<le> of_int N" and "\<bar>M\<bar> < 2 ^ 53" and "\<bar>N\<bar> < 2 ^ 53"
  shows "\<exists>y. rnd x = Fin y \<and> of_int M \<le> y \<and> y \<le> of_int N"
proof -
  from rnd_mono [OF assms(1)] rnd_int [OF assms(3)]
  have lo: "fle (Fin (of_int M)) (rnd x)" by simp
  from rnd_mono [OF assms(2)] rnd_int [OF assms(4)]
  have hi: "fle (rnd x) (Fin (of_int N))" by simp
  from lo hi show ?thesis
    by (cases "rnd x") simp_all
qed

lemma rnd_le_pow2:
  assumes "0 \<le> x" and "x \<le> 2 ^ n" and "n \<le> 1023"
  shows "\<exists>y. rnd x = Fin y \<and> 0 \<le> y \<and> y \<le> 2 ^ n"
proof -
  have "(2::real) ^ n = of_int 1 * 2 ^ (n + 1074) / scale"
    by (simp add: scale_def power_add)
  moreover have "nearest (of_int 1 * 2 ^ (n + 1074) / scale) = of_int 1 * 2 ^ (n + 1074) / scale"
    by (rule nearest_grid) simp
  ultimately have grid: "nearest (2 ^ n) = 2 ^ n" by simp
  from nearest_mono [OF assms(2)] grid have up: "nearest x \<le> 2 ^ n" by simp
  from nearest_nonneg [OF assms(1)] have lo: "0 \<le> nearest x" .
  from assms(3) have "n < 1024" by simp
  then have "(2::real) ^ n < 2 ^ 1024"
    by (intro power_strict_increasing) simp_all
  with up lo have "\<bar>nearest x\<bar> < 2 ^ 1024" by simp
  from rnd_Fin [OF this] up lo show ?thesis by blast
qed

lemma rnd_finite_below:
  assumes "\<bar>x\<bar> \<le> 2 ^ 1024 - 2 ^ 971"
  shows "\<exists>y. rnd x = Fin y"
proof -
  have "(2::real) ^ 970 < 2 ^ 971"
    by (rule power_strict_increasing) simp_all
  moreover have "(0::real) < 2 ^ 971" by simp
  ultimately have lt: "\<bar>x\<bar> < 2 ^ 1024" and "\<bar>x\<bar> + 2 ^ 970 < 2 ^ 1024"
    using assms by linarith+
  moreover from nearest_err_below [OF lt] have "\<bar>nearest x\<bar> \<le> \<bar>x\<bar> + 2 ^ 970"
    by linarith
  ultimately have "\<bar>nearest x\<bar> < 2 ^ 1024" by linarith
  from rnd_Fin [OF this] show ?thesis by blast
qed

lemma litres_f64: "\<exists>l. LITRES_PER_GALLON_f64 = Fin l \<and> 4 \<le> l \<and> l \<le> 5"
  using rnd_between [of 4 "4.54609" 5] by (simp add: LITRES_PER_GALLON_f64_def)

lemma rnd_10000: "rnd 10000 = Fin 10000"
  using rnd_int [of 10000] by simp

lemma rnd_5000: "rnd 5000 = Fin 5000"
  using rnd_int [of 5000] by simp

lemma litres_for_5000:
  "\<exists>a. fmul (Fin 5000) LITRES_PER_GALLON_f64 = Fin a \<and> 20000 \<le> a \<and> a \<le> 25000"
proof -
  from litres_f64 obtain l where l: "LITRES_PER_GALLON_f64 = Fin l" "4 \<le> l" "l \<le> 5"
    by blast
  from l(2,3) have "of_int 20000 \<le> 5000 * l" and "5000 * l \<le> of_int 25000" by simp_all
  from rnd_between [OF this] show ?thesis by (simp add: l(1))
qed

lemma litres_for_10000:
  "\<exists>a. fmul (Fin 10000) LITRES_PER_GALLON_f64 = Fin a \<and> 40000 \<le> a \<and> a \<le> 50000"
proof -
  from litres_f64 obtain l where l: "LITRES_PER_GALLON_f64 = Fin l" "4 \<le> l" "l \<le> 5"
    by blast
  from l(2,3) have "of_int 40000 \<le> 10000 * l" and "10000 * l \<le> of_int 50000" by simp_all
  from rnd_between [OF this] show ?thesis by (simp add: l(1))
qed

lemma fle_NaN_right: "\<not> fle x NaN"
  by (cases x) simp_all

lemma fle_rnd_PInf: "fle (rnd x) PInf"
  by (simp add: rnd_def Let_def)

lemma fmul_pos_mono:
  assumes "fle (Fin 0) a" and "fle a b" and "0 < c"
  shows "fle (Fin 0) (fmul a (Fin c)) \<and> fle (fmul a (Fin c)) (fmul b (Fin c))"
proof (cases a)
  case (Fin a')
  with assms(1) have a': "0 \<le> a'" by simp
  with assms(3) have nn: "fle (Fin 0) (rnd (a' * c))"
    by (intro rnd_nonneg) simp
  show ?thesis
  proof (cases b)
    case (Fin b')
    with assms(2) \<open>a = Fin a'\<close> have "a' \<le> b'" by simp
    with assms(3) have "a' * c \<le> b' * c" by (simp add: mult_right_mono)
    from rnd_mono [OF this] nn show ?thesis
      by (simp add: Fin \<open>a = Fin a'\<close>)
  next
    case PInf
    with assms(3) nn show ?thesis
      by (simp add: \<open>a = Fin a'\<close> fle_rnd_PInf)
  next
    case NInf
    with assms(2) \<open>a = Fin a'\<close> show ?thesis by simp
  next
    case NaN
    with assms(2) show ?thesis by (simp add: fle_NaN_right)
  qed
next
  case PInf
  with assms(2) have "b = PInf" by (cases b) simp_all
  with PInf assms(3) show ?thesis by simp
next
  case NInf
  with assms(1) show ?thesis by simp
next
  case NaN
  with assms(1) show ?thesis by simp
qed

lemma fsub_nonneg:
  assumes "fle (Fin 0) cs" and "fle cs cu"
  shows "(fsub cu cs = NaN \<and> cs = PInf) \<or> fle (Fin 0) (fsub cu cs)"
proof (cases cs)
  case (Fin b)
  show ?thesis
  proof (cases cu)
    case (Fin a)
    with assms(2) \<open>cs = Fin b\<close> have "0 \<le> a - b" by simp
    from rnd_nonneg [OF this] show ?thesis
      by (simp add: Fin \<open>cs = Fin b\<close>)
  next
    case PInf
    then show ?thesis by (simp add: \<open>cs = Fin b\<close>)
  next
    case NInf
    with assms(2) \<open>cs = Fin b\<close> show ?thesis by simp
  next
    case NaN
    with assms(2) show ?thesis by (simp add: fle_NaN_right)
  qed
next
  case PInf
  with assms(2) have "cu = PInf" by (cases cu) simp_all
  with PInf show ?thesis by simp
next
  case NInf
  with assms(1) show ?thesis by simp
next
  case NaN
  with assms(1) show ?thesis by simp
qed

lemma fuel_f64_unfold:
  assumes "0 < s" and "0 < u" and "0 < p"
  shows "calculate_extra_fuel_cost_10k_f64 (Fin s) (Fin u) (Fin p) =
           Inr (fsub (fmul (fmul (rnd (10000 / u)) LITRES_PER_GALLON_f64) (Fin p))
                     (fmul (fmul (rnd (10000 / s)) LITRES_PER_GALLON_f64) (Fin p)))"
  using assms by (simp add: calculate_extra_fuel_cost_10k_f64_def)

lemma rel_mult:
  fixes a b A B \<alpha> \<beta> :: real
  assumes "\<bar>a - A\<bar> \<le> \<alpha> * \<bar>A\<bar>" and "\<bar>b - B\<bar> \<le> \<beta> * \<bar>B\<bar>"
  shows "\<bar>a * b - A * B\<bar> \<le> (\<alpha> + \<beta> + \<alpha> * \<beta>) * \<bar>A * B\<bar>"
proof -
  have "a * b - A * B = (a - A) * B + A * (b - B) + (a - A) * (b - B)"
    by (simp add: algebra_simps)
  then have "\<bar>a * b - A * B\<bar> \<le> \<bar>(a - A) * B\<bar> + \<bar>A * (b - B)\<bar> + \<bar>(a - A) * (b - B)\<bar>"
    by linarith
  also have "\<dots> = \<bar>a - A\<bar> * \<bar>B\<bar> + \<bar>A\<bar> * \<bar>b - B\<bar> + \<bar>a - A\<bar> * \<bar>b - B\<bar>"
    by (simp add: abs_mult)
  also have "\<dots> \<le> \<alpha> * \<bar>A\<bar> * \<bar>B\<bar> + \<bar>A\<bar> * (\<beta> * \<bar>B\<bar>) + \<alpha> * \<bar>A\<bar> * (\<beta> * \<bar>B\<bar>)"
  proof -
    have "\<bar>a - A\<bar> * \<bar>B\<bar> \<le> \<alpha> * \<bar>A\<bar> * \<bar>B\<bar>"
      using assms(1) by (intro mult_right_mono) simp_all
    moreover have "\<bar>A\<bar> * \<bar>b - B\<bar> \<le> \<bar>A\<bar> * (\<beta> * \<bar>B\<bar>)"
      using assms(2) by (intro mult_left_mono) simp_all
    moreover have "\<bar>a - A\<bar> * \<bar>b - B\<bar> \<le> \<alpha> * \<bar>A\<bar> * (\<beta> * \<bar>B\<bar>)"
      using assms by (intro mult_mono) (auto intro: order_trans [OF abs_ge_zero])
    ultimately show ?thesis by linarith
  qed
  also have "\<dots> = (\<alpha> + \<beta> + \<alpha> * \<beta>) * \<bar>A * B\<bar>"
    by (simp add: abs_mult algebra_simps)
  finally show ?thesis .
qed

lemma rel_rnd:
  fixes x y X \<kappa> e :: real
  assumes "\<bar>x - X\<bar> \<le> \<kappa> * \<bar>X\<bar>" and "\<bar>y - x\<bar> \<le> e * \<bar>x\<bar>" and "0 \<le> e"
  shows "\<bar>y - X\<bar> \<le> (\<kappa> + e + \<kappa> * e) * \<bar>X\<bar>"
proof -
  from assms(1) have "\<bar>x\<bar> \<le> \<bar>X\<bar> + \<kappa> * \<bar>X\<bar>" by linarith
  with assms(3) have "e * \<bar>x\<bar> \<le> e * (\<bar>X\<bar> + \<kappa> * \<bar>X\<bar>)"
    by (intro mult_left_mono) simp_all
  with assms(1,2) have "\<bar>y - X\<bar> \<le> e * (\<bar>X\<bar> + \<kappa> * \<bar>X\<bar>) + \<kappa> * \<bar>X\<bar>"
    by linarith
  also have "\<dots> = (\<kappa> + e + \<kappa> * e) * \<bar>X\<bar>"
    by (simp add: algebra_simps)
  finally show ?thesis .
qed

lemma rnd_rel_chain:
  assumes "\<bar>x - X\<bar> \<le> \<kappa> * \<bar>X\<bar>" and "0 \<le> \<kappa>" and "\<kappa> \<le> 1 / 2"
    and "1 / 2 ^ 1021 \<le> \<bar>X\<bar>" and "\<bar>X\<bar> \<le> 2 ^ 1022"
  shows "\<exists>y. rnd x = Fin y \<and> \<bar>y - X\<bar> \<le> (\<kappa> + eps + \<kappa> * eps) * \<bar>X\<bar>"
proof -
  from assms(3) have "\<kappa> * \<bar>X\<bar> \<le> 1 / 2 * \<bar>X\<bar>"
    by (intro mult_right_mono) simp_all
  with assms(1) have lo: "\<bar>X\<bar> / 2 \<le> \<bar>x\<bar>" and hi: "\<bar>x\<bar> \<le> 2 * \<bar>X\<bar>"
    by linarith+
  have "(1 / 2 ^ 1022 :: real) = 1 / 2 ^ 1021 / 2"
    by simp
  also from assms(4) have "\<dots> \<le> \<bar>X\<bar> / 2" by (simp only: divide_right_mono zero_le_numeral)
  finally have n: "1 / 2 ^ 1022 \<le> \<bar>x\<bar>" using lo by linarith
  have "2 * \<bar>X\<bar> \<le> 2 * 2 ^ 1022"
    using assms(5) by (simp only: mult_left_mono zero_le_numeral)
  also have "\<dots> = (2::real) ^ 1023" by simp
  finally have f: "\<bar>x\<bar> \<le> 2 ^ 1023" using hi by linarith
  from rnd_rel [OF n f] obtain y where y: "rnd x = Fin y" "\<bar>y - x\<bar> \<le> eps * \<bar>x\<bar>"
    by blast
  from eps_pos have "0 \<le> eps" by simp
  from rel_rnd [OF assms(1) y(2) this] y(1) show ?thesis by blast
qed

lemma rnd_Fin_nearest:
  assumes "rnd x = Fin y"
  shows "y = nearest x"
  using assms by (simp add: rnd_def Let_def split: if_splits)

lemma rnd_abs:
  assumes "\<bar>x\<bar> \<le> 2 ^ 1023"
  shows "\<exists>y. rnd x = Fin y \<and> \<bar>y - x\<bar> \<le> eps * \<bar>x\<bar> + 1 / (2 * scale)"
proof -
  have "(2::real) ^ 1023 \<le> 2 ^ 1024 - 2 ^ 971" by simp
  with assms have "\<bar>x\<bar> \<le> 2 ^ 1024 - 2 ^ 971" by linarith
  from rnd_finite_below [OF this] obtain y where y: "rnd x = Fin y" by blast
  then have n: "y = nearest x" by (rule rnd_Fin_nearest)
  have "2 ^ ulp_shift x / (2 * scale) \<le> eps * \<bar>x\<bar> + 1 / (2 * scale)"
  proof (cases "ulp_shift x = 0")
    case True
    then show ?thesis using eps_pos by simp
  next
    case False
    then have "0 < ulp_shift x" by simp
    from ulp_shift_lower [OF this] have "2 ^ ulp_shift x * 2 ^ 52 \<le> \<bar>x\<bar> * scale"
      by (simp add: power_add)
    then have "2 ^ ulp_shift x / (2 * scale) \<le> \<bar>x\<bar> / 2 ^ 53"
      using scale_pos by (simp add: field_simps)
    moreover have "\<bar>x\<bar> / 2 ^ 53 = eps * \<bar>x\<bar>" by (simp add: eps_def)
    moreover from scale_pos have "0 \<le> 1 / (2 * scale)" by simp
    ultimately show ?thesis by linarith
  qed
  with nearest_err [of x] n y show ?thesis by auto
qed

lemma cost_f64_close:
  assumes "1 / 2 ^ 300 \<le> m" and "m \<le> 2 ^ 300" and "1 / 2 ^ 300 \<le> p" and "p \<le> 2 ^ 300"
  shows "\<exists>c. fmul (fmul (rnd (10000 / m)) LITRES_PER_GALLON_f64) (Fin p) = Fin c
           \<and> \<bar>c - 10000 / m * 4.54609 * p\<bar> \<le> 7 * eps * (10000 / m * 4.54609 * p)
           \<and> 1 / 2 ^ 600 \<le> 10000 / m * 4.54609 * p
           \<and> 10000 / m * 4.54609 * p \<le> 2 ^ 620"
proof -
  from assms(1) have m: "0 < m"
    by (rule less_le_trans [rotated]) simp
  from assms(3) have p: "0 < p"
    by (rule less_le_trans [rotated]) simp
  define X1 where "X1 = 10000 / m"
  define X2 where "X2 = X1 * 4.54609"
  define X3 where "X3 = X2 * p"
  define k2 where "k2 = eps + eps + eps * eps"
  define k3 where "k3 = k2 + eps + k2 * eps"
  define k4 where "k4 = k3 + eps + k3 * eps"
  have k: "0 \<le> k2" "k2 \<le> 1 / 2" "0 \<le> k3" "k3 \<le> 1 / 2" "k4 \<le> 7 * eps"
    by (simp_all add: k2_def k3_def k4_def eps_def)
  from m assms(2) have "10000 / 2 ^ 300 \<le> 10000 / m"
    by (intro divide_left_mono) simp_all
  then have X1lo: "10000 / 2 ^ 300 \<le> X1" by (simp add: X1_def)
  from m assms(1) have "1 / m \<le> 2 ^ 300"
    by (simp add: field_simps)
  then have "10000 * (1 / m) \<le> 10000 * 2 ^ 300"
    by (intro mult_left_mono) simp_all
  then have X1hi: "X1 \<le> 10000 * 2 ^ 300" by (simp add: X1_def)
  from X1lo have X1pos: "0 < X1"
    by (rule less_le_trans [rotated]) simp
  have X2lo: "10000 / 2 ^ 300 \<le> X2"
    using X1lo X1pos unfolding X2_def by (intro order_trans [OF X1lo]) simp
  have X2hi: "X2 \<le> 50000 * 2 ^ 300"
  proof -
    have "X1 * 4.54609 \<le> X1 * 5" using X1pos by (intro mult_left_mono) simp_all
    also have "\<dots> \<le> 10000 * 2 ^ 300 * 5" using X1hi by (intro mult_right_mono) simp_all
    finally show ?thesis by (simp add: X2_def)
  qed
  from X2lo have X2pos: "0 < X2"
    by (rule less_le_trans [rotated]) simp
  have X3lo: "10000 / 2 ^ 300 / 2 ^ 300 \<le> X3"
  proof -
    have "10000 / 2 ^ 300 * (1 / 2 ^ 300) \<le> X2 * p"
      using X2lo assms(3) by (intro mult_mono) simp_all
    then show ?thesis by (simp add: X3_def)
  qed
  have X3hi: "X3 \<le> 50000 * 2 ^ 300 * 2 ^ 300"
    unfolding X3_def using X2hi assms(4) X2pos p by (intro mult_mono) simp_all
  from X3lo have X3pos: "0 < X3"
    by (rule less_le_trans [rotated]) simp
  have r1: "1 / 2 ^ 1021 \<le> \<bar>X1\<bar>" "\<bar>X1\<bar> \<le> 2 ^ 1022"
  proof -
    have "(1 / 2 ^ 1021 :: real) \<le> 10000 / 2 ^ 300" by simp
    with X1lo X1pos show "1 / 2 ^ 1021 \<le> \<bar>X1\<bar>" by linarith
    have "(10000 * 2 ^ 300 :: real) \<le> 2 ^ 1022" by simp
    with X1hi X1pos show "\<bar>X1\<bar> \<le> 2 ^ 1022" by linarith
  qed
  have r2: "1 / 2 ^ 1021 \<le> \<bar>X2\<bar>" "\<bar>X2\<bar> \<le> 2 ^ 1022"
  proof -
    have "(1 / 2 ^ 1021 :: real) \<le> 10000 / 2 ^ 300" by simp
    with X2lo X2pos show "1 / 2 ^ 1021 \<le> \<bar>X2\<bar>" by linarith
    have "(50000 * 2 ^ 300 :: real) \<le> 2 ^ 1022" by simp
    with X2hi X2pos show "\<bar>X2\<bar> \<le> 2 ^ 1022" by linarith
  qed
  have r3: "1 / 2 ^ 1021 \<le> \<bar>X3\<bar>" "\<bar>X3\<bar> \<le> 2 ^ 1022"
  proof -
    have "(1 / 2 ^ 1021 :: real) \<le> 10000 / 2 ^ 300 / 2 ^ 300" by simp
    with X3lo X3pos show "1 / 2 ^ 1021 \<le> \<bar>X3\<bar>" by linarith
    have "(50000 * 2 ^ 300 * 2 ^ 300 :: real) \<le> 2 ^ 1022" by simp
    with X3hi X3pos show "\<bar>X3\<bar> \<le> 2 ^ 1022" by linarith
  qed
  have "\<bar>X1 - X1\<bar> \<le> 0 * \<bar>X1\<bar>" by simp
  from rnd_rel_chain [OF this _ _ r1] obtain g where
    g: "rnd X1 = Fin g" "\<bar>g - X1\<bar> \<le> eps * \<bar>X1\<bar>"
    by auto
  have "\<bar>4.54609 - 4.54609 :: real\<bar> \<le> 0 * \<bar>4.54609\<bar>" by simp
  from rnd_rel_chain [OF this] obtain l where
    l: "rnd 4.54609 = Fin l" "\<bar>l - 4.54609\<bar> \<le> eps * \<bar>4.54609\<bar>"
    by auto
  from rel_mult [OF g(2) l(2)] have "\<bar>g * l - X2\<bar> \<le> k2 * \<bar>X2\<bar>"
    by (simp only: X2_def k2_def)
  from rnd_rel_chain [OF this k(1,2) r2] obtain a where
    a: "rnd (g * l) = Fin a" "\<bar>a - X2\<bar> \<le> k3 * \<bar>X2\<bar>"
    unfolding k3_def by blast
  have "\<bar>p - p\<bar> \<le> 0 * \<bar>p\<bar>" by simp
  from rel_mult [OF a(2) this] have "\<bar>a * p - X3\<bar> \<le> k3 * \<bar>X3\<bar>"
    by (simp add: X3_def)
  from rnd_rel_chain [OF this k(3,4) r3] obtain c where
    c: "rnd (a * p) = Fin c" "\<bar>c - X3\<bar> \<le> k4 * \<bar>X3\<bar>"
    unfolding k4_def by blast
  from k(5) X3pos have "k4 * \<bar>X3\<bar> \<le> 7 * eps * X3"
    by (simp add: mult_right_mono)
  with c(2) have "\<bar>c - X3\<bar> \<le> 7 * eps * X3" by linarith
  moreover have "fmul (fmul (rnd (10000 / m)) LITRES_PER_GALLON_f64) (Fin p) = Fin c"
    using g(1) l(1) a(1) c(1) by (simp add: X1_def LITRES_PER_GALLON_f64_def)
  moreover have "1 / 2 ^ 600 \<le> X3"
  proof -
    have "(1 / 2 ^ 600 :: real) \<le> 10000 / 2 ^ 300 / 2 ^ 300" by simp
    with X3lo show ?thesis by linarith
  qed
  moreover have "X3 \<le> 2 ^ 620"
  proof -
    have "(50000 * 2 ^ 300 * 2 ^ 300 :: real) \<le> 2 ^ 620" by simp
    with X3hi show ?thesis by linarith
  qed
  moreover have "X3 = 10000 / m * 4.54609 * p"
    by (simp add: X3_def X2_def X1_def)
  ultimately show ?thesis
    by (simp only:) blast
qed

lemma rel_inverse:
  fixes q q' :: real
  assumes "0 < q" and "\<bar>q' - q\<bar> \<le> eps * q"
  shows "0 < q' \<and> \<bar>1 / q' - 1 / q\<bar> \<le> 2 * eps * \<bar>1 / q\<bar>"
proof -
  have "eps * q \<le> 1 / 2 * q"
    using assms(1) by (intro mult_right_mono) (simp_all add: eps_def)
  with assms(2) have half: "q / 2 \<le> q'" by linarith
  with assms(1) have q': "0 < q'" by linarith
  have "1 / q' - 1 / q = (q - q') / (q' * q)"
    using assms(1) q' by (simp add: field_simps)
  then have "\<bar>1 / q' - 1 / q\<bar> = \<bar>q - q'\<bar> / (q' * q)"
    using assms(1) q' by (simp add: abs_mult)
  also have "\<dots> \<le> eps * q / (q' * q)"
    using assms q' by (intro divide_right_mono) simp_all
  also have "\<dots> = eps / q'"
    using assms(1) by simp
  also have "\<dots> \<le> eps / (q / 2)"
    using half assms(1) eps_pos by (intro divide_left_mono) simp_all
  also have "\<dots> = 2 * eps * \<bar>1 / q\<bar>"
    using assms(1) by simp
  finally show ?thesis using q' by blast
qed

lemma lifespan_cycles_f64:
  assumes "1 / 2 ^ 300 \<le> l" and "l \<le> 2 ^ 300"
  shows "\<exists>q'. rnd (l / 10000) = Fin q' \<and> 0 < q'
           \<and> \<bar>1 / q' - 1 / (l / 10000)\<bar> \<le> 2 * eps * \<bar>1 / (l / 10000)\<bar>"
proof -
  from assms(1) have l: "0 < l" by (rule less_le_trans [rotated]) simp
  define q where "q = l / 10000"
  have q: "0 < q" using l by (simp add: q_def)
  have qlo: "1 / 2 ^ 300 / 10000 \<le> q"
    using assms(1) by (simp add: q_def divide_right_mono)
  have qhi: "q \<le> 2 ^ 300 / 10000"
    using assms(2) by (simp add: q_def divide_right_mono)
  have rq: "1 / 2 ^ 1021 \<le> \<bar>q\<bar>" "\<bar>q\<bar> \<le> 2 ^ 1022"
  proof -
    have "(1 / 2 ^ 1021 :: real) \<le> 1 / 2 ^ 300 / 10000" by simp
    with qlo q show "1 / 2 ^ 1021 \<le> \<bar>q\<bar>" by linarith
    have "(2 ^ 300 / 10000 :: real) \<le> 2 ^ 1022" by simp
    with qhi q show "\<bar>q\<bar> \<le> 2 ^ 1022" by linarith
  qed
  have "\<bar>q - q\<bar> \<le> 0 * \<bar>q\<bar>" by simp
  from rnd_rel_chain [OF this _ _ rq] obtain q' where
    q': "rnd q = Fin q'" "\<bar>q' - q\<bar> \<le> eps * \<bar>q\<bar>"
    by auto
  from q'(2) q have "\<bar>q' - q\<bar> \<le> eps * q" by simp
  from rel_inverse [OF q this] q'(1) show ?thesis
    unfolding q_def by blast
qed

subsection \<open>The fuel cost formula\<close>

text \<open>
  Claim C1 as stated gives the value \<open>(10000 / mpg_under - 10000 / mpg_std) * 4.54609 * price\<close>
  for every positive economy and price. With economies 2.0 and 1.0 and the price
  \<open>2 ^ 1009\<close> (about 5.5e303) the product for the underinflated economy overflows and the
  function returns infinity, while the stated value is a finite number below \<open>2 ^ 1024\<close>.
\<close>

theorem fuel_cost_overflows_to_inf:
  "calculate_extra_fuel_cost_10k_f64 (Fin 2) (Fin 1) (Fin (2 ^ 1009)) = Inr PInf
   \<and> (10000 / 1 - 10000 / 2) * 4.54609 * 2 ^ 1009 < (2 ^ 1024 :: real)"
proof -
  from litres_for_5000 obtain a where
    a: "fmul (Fin 5000) LITRES_PER_GALLON_f64 = Fin a" "20000 \<le> a" "a \<le> 25000"
    by blast
  from litres_for_10000 obtain b where
    b: "fmul (Fin 10000) LITRES_PER_GALLON_f64 = Fin b" "40000 \<le> b" "b \<le> 50000"
    by blast
  have p: "(0::real) \<le> 2 ^ 1009" by simp
  from mult_right_mono [OF a(3) p] a(2) have "\<bar>a * 2 ^ 1009\<bar> \<le> 25000 * 2 ^ 1009"
    by simp
  also have "(25000 :: real) * 2 ^ 1009 \<le> 2 ^ 1024 - 2 ^ 971"
    by simp
  finally obtain c where c: "rnd (a * 2 ^ 1009) = Fin c"
    using rnd_finite_below by blast
  have "(2::real) ^ 1024 \<le> 40000 * 2 ^ 1009" by simp
  also from mult_right_mono [OF b(2) p] have "\<dots> \<le> b * 2 ^ 1009" .
  finally have "rnd (b * 2 ^ 1009) = PInf" by (rule rnd_PInf)
  with c a(1) b(1) have "calculate_extra_fuel_cost_10k_f64 (Fin 2) (Fin 1) (Fin (2 ^ 1009)) = Inr PInf"
    by (simp add: calculate_extra_fuel_cost_10k_f64_def rnd_10000 rnd_5000)
  moreover have "(10000 / 1 - 10000 / 2) * 4.54609 * 2 ^ 1009 < (2 ^ 1024 :: real)"
    by simp
  ultimately show ?thesis by blast
qed

text \<open>
  Claim C1, as the code has it. For every class and every diesel price with both economies
  and the price between \<open>1 / 2 ^ 300\<close> and \<open>2 ^ 300\<close>, \<open>calculate_extra_fuel_cost_10k_f64\<close> returns a
  finite number that differs from \<open>(10000 / mpg_under - 10000 / mpg_std) * 4.54609 * price\<close>
  by at most \<open>(10000 / mpg_under + 10000 / mpg_std) * 4.54609 * price / 2 ^ 49\<close>: the stated
  value up to the rounding of the seven operations and of the constant.
\<close>

theorem fuel_cost_f64_close:
  assumes "1 / 2 ^ 300 \<le> s" and "s \<le> 2 ^ 300"
    and "1 / 2 ^ 300 \<le> u" and "u \<le> 2 ^ 300"
    and "1 / 2 ^ 300 \<le> p" and "p \<le> 2 ^ 300"
  shows "\<exists>c. calculate_extra_fuel_cost_10k_f64 (Fin s) (Fin u) (Fin p) = Inr (Fin c)
           \<and> \<bar>c - (10000 / u - 10000 / s) * 4.54609 * p\<bar>
               \<le> (10000 / u + 10000 / s) * 4.54609 * p / 2 ^ 49"
proof -
  from assms(1) have s: "0 < s" by (rule less_le_trans [rotated]) simp
  from assms(3) have u: "0 < u" by (rule less_le_trans [rotated]) simp
  from assms(5) have p: "0 < p" by (rule less_le_trans [rotated]) simp
  define CS where "CS = 10000 / s * 4.54609 * p"
  define CU where "CU = 10000 / u * 4.54609 * p"
  from cost_f64_close [OF assms(1,2,5,6)] obtain cs where
    cs: "fmul (fmul (rnd (10000 / s)) LITRES_PER_GALLON_f64) (Fin p) = Fin cs"
      "\<bar>cs - CS\<bar> \<le> 7 * eps * CS"
    and CSlo: "1 / 2 ^ 600 \<le> CS" and CShi: "CS \<le> 2 ^ 620"
    unfolding CS_def by blast
  from cost_f64_close [OF assms(3,4,5,6)] obtain cu where
    cu: "fmul (fmul (rnd (10000 / u)) LITRES_PER_GALLON_f64) (Fin p) = Fin cu"
      "\<bar>cu - CU\<bar> \<le> 7 * eps * CU"
    and CUhi: "CU \<le> 2 ^ 620"
    unfolding CU_def by blast
  have CSpos: "0 < CS" using s p by (simp add: CS_def)
  have CUpos: "0 < CU" using u p by (simp add: CU_def)
  have e7: "7 * eps \<le> 1" by (simp add: eps_def)
  have "7 * eps * CS \<le> 1 * CS" using e7 CSpos by (intro mult_right_mono) simp_all
  with cs(2) have csb: "\<bar>cs\<bar> \<le> 2 * CS" by linarith
  have "7 * eps * CU \<le> 1 * CU" using e7 CUpos by (intro mult_right_mono) simp_all
  with cu(2) have cub: "\<bar>cu\<bar> \<le> 2 * CU" by linarith
  have "\<bar>cu - cs\<bar> \<le> \<bar>cu\<bar> + \<bar>cs\<bar>" by (rule abs_triangle_ineq4)
  with csb cub have diff: "\<bar>cu - cs\<bar> \<le> 2 * CU + 2 * CS" by linarith
  have "(2 * 2 ^ 620 + 2 * 2 ^ 620 :: real) \<le> 2 ^ 1023" by simp
  with diff CShi CUhi have "\<bar>cu - cs\<bar> \<le> 2 ^ 1023" by linarith
  from rnd_abs [OF this] obtain c where
    c: "rnd (cu - cs) = Fin c" "\<bar>c - (cu - cs)\<bar> \<le> eps * \<bar>cu - cs\<bar> + 1 / (2 * scale)"
    by blast
  have tiny: "1 / (2 * scale) \<le> eps * CU + eps * CS"
  proof -
    have "1 / (2 * scale) \<le> eps * (1 / 2 ^ 600)"
      by (simp add: scale_def eps_def)
    also have "\<dots> \<le> eps * CS"
      using CSlo eps_pos by (intro mult_left_mono) simp_all
    also have "\<dots> \<le> eps * CU + eps * CS"
      using CUpos eps_pos by simp
    finally show ?thesis .
  qed
  have "eps * \<bar>cu - cs\<bar> \<le> eps * (2 * CU + 2 * CS)"
    using diff eps_pos by (intro mult_left_mono) simp_all
  then have "eps * \<bar>cu - cs\<bar> \<le> 2 * (eps * CU) + 2 * (eps * CS)"
    by (simp add: algebra_simps)
  moreover have "\<bar>c - (CU - CS)\<bar> \<le> \<bar>c - (cu - cs)\<bar> + \<bar>cu - CU\<bar> + \<bar>cs - CS\<bar>"
    by linarith
  moreover have "7 * eps * CU = 7 * (eps * CU)" and "7 * eps * CS = 7 * (eps * CS)"
    by simp_all
  ultimately have "\<bar>c - (CU - CS)\<bar> \<le> 10 * (eps * CU) + 10 * (eps * CS)"
    using c(2) tiny cs(2) cu(2) by linarith
  also have "\<dots> = 10 * eps * (CU + CS)"
    by (simp add: algebra_simps)
  also have "\<dots> \<le> 1 / 2 ^ 49 * (CU + CS)"
    using CSpos CUpos by (intro mult_right_mono) (simp_all add: eps_def)
  finally have bound: "\<bar>c - (CU - CS)\<bar> \<le> (CU + CS) / 2 ^ 49" by simp
  have run: "calculate_extra_fuel_cost_10k_f64 (Fin s) (Fin u) (Fin p) = Inr (Fin c)"
    using fuel_f64_unfold [OF s u p] cs(1) cu(1) c(1) by simp
  have eq1: "(10000 / u - 10000 / s) * 4.54609 * p = CU - CS"
    unfolding CU_def CS_def by (simp only: left_diff_distrib)
  have eq2: "(10000 / u + 10000 / s) * 4.54609 * p = CU + CS"
    unfolding CU_def CS_def by (simp only: distrib_right)
  show ?thesis
    unfolding eq1 eq2 using run bound by blast
qed

theorem fuel_cost_f64_close_witness:
  "\<exists>c. calculate_extra_fuel_cost_10k_f64 (Fin 54.25) (Fin 51) (Fin 1.5) = Inr (Fin c)
       \<and> \<bar>c - (10000 / 51 - 10000 / 54.25) * 4.54609 * 1.5\<bar>
           \<le> (10000 / 51 + 10000 / 54.25) * 4.54609 * 1.5 / 2 ^ 49"
  using fuel_cost_f64_close [of "54.25" 51 "1.5"] by simp

subsection \<open>The tyre cost formula\<close>

text \<open>
  Claim C2 as stated gives the value \<open>(tyre_cost_under - tyre_cost_std) * 10000 / lifespan\<close>
  for every positive lifespan. With costs 0 and 1 and a lifespan of 11 miles the function
  divides 1 by the float nearest to \<open>11 / 10000\<close> and returns
  \<open>7996448202007272 / 2 ^ 43\<close> (909.090909090909). That is not \<open>10000 / 11\<close>, and not the
  float nearest to it either, which is the next one up, \<open>7996448202007273 / 2 ^ 43\<close>.
\<close>

theorem tyre_cost_rounds:
  "calculate_extra_tyre_cost_10k_f64 (Fin 0) (Fin 1) (Fin 11) =
     Inr (Fin (7996448202007272 / 2 ^ 43))
   \<and> rnd ((1 - 0) * 10000 / 11) = Fin (7996448202007273 / 2 ^ 43)
   \<and> (7996448202007272 / 2 ^ 43 :: real) \<noteq> (1 - 0) * 10000 / 11"
proof -
  have one: "rnd 1 = Fin 1"
    using rnd_int [of 1] by simp
  have "fsub (Fin 1) (Fin 0) = Fin 1"
    using one by simp
  moreover have "fdiv (Fin 11) (Fin 10000) = Inr (Fin (5072854620270127 / 2 ^ 62))"
    using cycles_for_11 by simp
  moreover have "fdiv (Fin 1) (Fin (5072854620270127 / 2 ^ 62)) =
      Inr (Fin (7996448202007272 / 2 ^ 43))"
    using tyre_quotient_for_11 by simp
  ultimately have "calculate_extra_tyre_cost_10k_f64 (Fin 0) (Fin 1) (Fin 11) =
     Inr (Fin (7996448202007272 / 2 ^ 43))"
    by (simp add: calculate_extra_tyre_cost_10k_f64_def)
  moreover have "rnd ((1 - 0) * 10000 / 11) = Fin (7996448202007273 / 2 ^ 43)"
    using stated_value_for_11 by simp
  ultimately show ?thesis by simp
qed

text \<open>
  Claim C2, as the code has it. For every class and every lifespan between \<open>1 / 2 ^ 300\<close> and
  \<open>2 ^ 300\<close>, with equal costs or a cost difference of a magnitude between \<open>1 / 2 ^ 300\<close> and
  \<open>2 ^ 300\<close>, \<open>calculate_extra_tyre_cost_10k_f64\<close> returns a finite number within a relative
  error of \<open>1 / 2 ^ 50\<close> of \<open>(tyre_cost_under - tyre_cost_std) * 10000 / lifespan\<close>. Nothing is
  said here about lifespans below that range; claim C6 is about them.
\<close>

theorem tyre_cost_f64_close:
  assumes "1 / 2 ^ 300 \<le> l" and "l \<le> 2 ^ 300"
    and "tu = ts \<or> (1 / 2 ^ 300 \<le> \<bar>tu - ts\<bar> \<and> \<bar>tu - ts\<bar> \<le> 2 ^ 300)"
  shows "\<exists>c. calculate_extra_tyre_cost_10k_f64 (Fin ts) (Fin tu) (Fin l) = Inr (Fin c)
           \<and> \<bar>c - (tu - ts) * 10000 / l\<bar> \<le> \<bar>(tu - ts) * 10000 / l\<bar> / 2 ^ 50"
proof -
  from assms(1) have l: "0 < l" by (rule less_le_trans [rotated]) simp
  define d where "d = tu - ts"
  define q where "q = l / 10000"
  from lifespan_cycles_f64 [OF assms(1,2)] obtain q' where
    q': "rnd q = Fin q'" and q'pos: "0 < q'"
    and inv: "\<bar>1 / q' - 1 / q\<bar> \<le> 2 * eps * \<bar>1 / q\<bar>"
    unfolding q_def by blast
  show ?thesis
  proof (cases "tu = ts")
    case True
    then have "calculate_extra_tyre_cost_10k_f64 (Fin ts) (Fin tu) (Fin l) = Inr (Fin 0)"
      using l q'pos q' by (simp add: calculate_extra_tyre_cost_10k_f64_def q_def rnd_zero)
    with True show ?thesis by simp
  next
    case False
    with assms(3) have dlo: "1 / 2 ^ 300 \<le> \<bar>d\<bar>" and dhi: "\<bar>d\<bar> \<le> 2 ^ 300"
      by (simp_all add: d_def)
    define X where "X = d * (1 / q)"
    define k where "k = eps + 2 * eps + eps * (2 * eps)"
    have k: "0 \<le> k" "k \<le> 1 / 2" "k + eps + k * eps \<le> 1 / 2 ^ 50"
      by (simp_all add: k_def eps_def)
    have q: "0 < q" using l by (simp add: q_def)
    have qlo: "1 / 2 ^ 300 / 10000 \<le> q"
      using assms(1) by (simp add: q_def divide_right_mono)
    have qhi: "q \<le> 2 ^ 300 / 10000"
      using assms(2) by (simp add: q_def divide_right_mono)
    have rd: "1 / 2 ^ 1021 \<le> \<bar>d\<bar>" "\<bar>d\<bar> \<le> 2 ^ 1022"
    proof -
      have "(1 / 2 ^ 1021 :: real) \<le> 1 / 2 ^ 300" by simp
      with dlo show "1 / 2 ^ 1021 \<le> \<bar>d\<bar>" by linarith
      have "(2 ^ 300 :: real) \<le> 2 ^ 1022" by simp
      with dhi show "\<bar>d\<bar> \<le> 2 ^ 1022" by linarith
    qed
    have inv_lo: "10000 / 2 ^ 300 \<le> 1 / q"
    proof -
      from q qhi have "1 / (2 ^ 300 / 10000) \<le> 1 / q"
        by (intro divide_left_mono) simp_all
      then show ?thesis by simp
    qed
    have inv_hi: "1 / q \<le> 10000 * 2 ^ 300"
    proof -
      from q qlo have "1 / q \<le> 1 / (1 / 2 ^ 300 / 10000)"
        by (intro divide_left_mono) simp_all
      then show ?thesis by simp
    qed
    have inv_pos: "0 < 1 / q" using q by simp
    have Xabs: "\<bar>X\<bar> = \<bar>d\<bar> * (1 / q)"
      using inv_pos by (simp add: X_def abs_mult)
    have rX: "1 / 2 ^ 1021 \<le> \<bar>X\<bar>" "\<bar>X\<bar> \<le> 2 ^ 1022"
    proof -
      have "1 / 2 ^ 300 * (10000 / 2 ^ 300) \<le> \<bar>d\<bar> * (1 / q)"
        by (rule mult_mono [OF dlo inv_lo]) simp_all
      moreover have "(1 / 2 ^ 1021 :: real) \<le> 1 / 2 ^ 300 * (10000 / 2 ^ 300)" by simp
      ultimately show "1 / 2 ^ 1021 \<le> \<bar>X\<bar>" unfolding Xabs by linarith
      have "\<bar>d\<bar> * (1 / q) \<le> 2 ^ 300 * (10000 * 2 ^ 300)"
        using inv_pos by (intro mult_mono [OF dhi inv_hi]) simp_all
      moreover have "(2 ^ 300 * (10000 * 2 ^ 300) :: real) \<le> 2 ^ 1022" by simp
      ultimately show "\<bar>X\<bar> \<le> 2 ^ 1022" unfolding Xabs by linarith
    qed
    have "\<bar>d - d\<bar> \<le> 0 * \<bar>d\<bar>" by simp
    from rnd_rel_chain [OF this _ _ rd] obtain d' where
      d': "rnd d = Fin d'" "\<bar>d' - d\<bar> \<le> eps * \<bar>d\<bar>"
      by auto
    from rel_mult [OF d'(2) inv] have "\<bar>d' * (1 / q') - X\<bar> \<le> k * \<bar>X\<bar>"
      by (simp only: X_def k_def)
    from rnd_rel_chain [OF this k(1,2) rX] obtain c where
      c: "rnd (d' * (1 / q')) = Fin c" "\<bar>c - X\<bar> \<le> (k + eps + k * eps) * \<bar>X\<bar>"
      by blast
    have "(k + eps + k * eps) * \<bar>X\<bar> \<le> 1 / 2 ^ 50 * \<bar>X\<bar>"
      using k(3) by (intro mult_right_mono) simp_all
    with c(2) have bound: "\<bar>c - X\<bar> \<le> \<bar>X\<bar> / 2 ^ 50" by simp
    have X: "X = (tu - ts) * 10000 / l"
      using l by (simp add: X_def d_def q_def)
    have "calculate_extra_tyre_cost_10k_f64 (Fin ts) (Fin tu) (Fin l) = Inr (Fin c)"
      using l q'pos d'(1) q' c(1)
      by (simp add: calculate_extra_tyre_cost_10k_f64_def d_def q_def)
    with bound show ?thesis unfolding X by blast
  qed
qed

theorem tyre_cost_f64_close_witness:
  "\<exists>c. calculate_extra_tyre_cost_10k_f64 (Fin 240) (Fin 283.25) (Fin 20000) = Inr (Fin c)
       \<and> \<bar>c - (283.25 - 240) * 10000 / 20000\<bar> \<le> \<bar>(283.25 - 240) * 10000 / 20000\<bar> / 2 ^ 50"
  using tyre_cost_f64_close [of 20000 "283.25" 240] by simp

subsection \<open>Degrading to zero\<close>

text \<open>
  Claim C3. \<open>calculate_extra_fuel_cost_10k\<close> returns exactly 0 when the standard economy, the
  underinflated economy or the price is not positive, and \<open>calculate_extra_tyre_cost_10k\<close>
  returns exactly 0 when the lifespan is not positive. Both return (\<open>Inr\<close>): no exception
  is raised, in particular no \<open>ZeroDivisionError\<close> at an economy of 0.
\<close>

theorem degrade_to_zero:
  "(mpg_std p \<le> 0 \<or> mpg_under p \<le> 0 \<or> price \<le> 0 \<longrightarrow>
      calculate_extra_fuel_cost_10k (mpg_std p) (mpg_under p) price = Inr 0)
   \<and> (lifespan_miles \<le> 0 \<longrightarrow>
      calculate_extra_tyre_cost_10k (tyre_cost_std p) (tyre_cost_under p) lifespan_miles = Inr 0)"
  by (simp add: fuel_guarded tyre_guarded)

theorem degrade_to_zero_witness:
  "calculate_extra_fuel_cost_10k 0 51.0 1.51 = Inr 0
   \<and> calculate_extra_tyre_cost_10k 240.0 283.2 0 = Inr 0"
  using degrade_to_zero
    [of "\<lparr>mpg_std = 0, mpg_under = 51.0, tyre_cost_std = 240.0, tyre_cost_under = 283.2\<rparr>" "1.51" 0]
  by simp

subsection \<open>The fuel cost is not negative\<close>

text \<open>
  Claim C7 as stated says that the fuel cost is at least 0 for every class with
  \<open>0 < mpg_under \<le> mpg_std\<close> and every positive price. With economies 2.0 and 1.0 and the
  price \<open>2 ^ 1010\<close> (about 1.1e304) both products overflow, the function returns
  \<open>inf - inf\<close>, which is NaN, and \<^verbatim>\<open>0 <= nan\<close> is false.
\<close>

theorem fuel_cost_overflows_to_nan:
  "calculate_extra_fuel_cost_10k_f64 (Fin 2) (Fin 1) (Fin (2 ^ 1010)) = Inr NaN
   \<and> \<not> fle (Fin 0) NaN \<and> (0::real) < 1 \<and> (1::real) \<le> 2 \<and> (0::real) < 2 ^ 1010"
proof -
  from litres_for_5000 obtain a where
    a: "fmul (Fin 5000) LITRES_PER_GALLON_f64 = Fin a" "20000 \<le> a" "a \<le> 25000"
    by blast
  from litres_for_10000 obtain b where
    b: "fmul (Fin 10000) LITRES_PER_GALLON_f64 = Fin b" "40000 \<le> b" "b \<le> 50000"
    by blast
  have p: "(0::real) \<le> 2 ^ 1010" by simp
  have "(2::real) ^ 1024 \<le> 20000 * 2 ^ 1010" by simp
  also from mult_right_mono [OF a(2) p] have "\<dots> \<le> a * 2 ^ 1010" .
  finally have ca: "rnd (a * 2 ^ 1010) = PInf" by (rule rnd_PInf)
  have "(2::real) ^ 1024 \<le> 40000 * 2 ^ 1010" by simp
  also from mult_right_mono [OF b(2) p] have "\<dots> \<le> b * 2 ^ 1010" .
  finally have cb: "rnd (b * 2 ^ 1010) = PInf" by (rule rnd_PInf)
  from ca cb a(1) b(1)
  have "calculate_extra_fuel_cost_10k_f64 (Fin 2) (Fin 1) (Fin (2 ^ 1010)) = Inr NaN"
    by (simp add: calculate_extra_fuel_cost_10k_f64_def rnd_10000 rnd_5000)
  then show ?thesis by simp
qed

text \<open>
  Claim C7, as the code has it. For every class with \<open>0 < mpg_under \<le> mpg_std\<close> and every
  positive diesel price, \<open>calculate_extra_fuel_cost_10k_f64\<close> returns a value that is never
  negative: it is at least 0 (possibly infinite) or it is NaN. It is at least 0 whenever
  \<open>mpg_std \<ge> 1 / 2 ^ 500\<close> and the price is at most \<open>2 ^ 500\<close>.
\<close>

theorem fuel_cost_f64_never_negative:
  assumes "0 < u" and "u \<le> s" and "0 < p"
  shows "\<exists>r. calculate_extra_fuel_cost_10k_f64 (Fin s) (Fin u) (Fin p) = Inr r
           \<and> (r = NaN \<or> fle (Fin 0) r)
           \<and> (1 / 2 ^ 500 \<le> s \<and> p \<le> 2 ^ 500 \<longrightarrow> fle (Fin 0) r)"
proof -
  from assms have s: "0 < s" by simp
  from litres_f64 obtain l where l: "LITRES_PER_GALLON_f64 = Fin l" "4 \<le> l" "l \<le> 5"
    by blast
  then have lpos: "0 < l" by simp
  define gs where "gs = rnd (10000 / s)"
  define gu where "gu = rnd (10000 / u)"
  define cs where "cs = fmul (fmul gs (Fin l)) (Fin p)"
  define cu where "cu = fmul (fmul gu (Fin l)) (Fin p)"
  from s have gs0: "fle (Fin 0) gs"
    unfolding gs_def by (intro rnd_nonneg) simp
  from assms s have "10000 / s \<le> 10000 / u"
    by (simp add: frac_le)
  then have gsu: "fle gs gu"
    unfolding gs_def gu_def by (rule rnd_mono)
  from fmul_pos_mono [OF gs0 gsu lpos]
  have a0: "fle (Fin 0) (fmul gs (Fin l))" and au: "fle (fmul gs (Fin l)) (fmul gu (Fin l))"
    by simp_all
  from fmul_pos_mono [OF a0 au assms(3)]
  have c0: "fle (Fin 0) cs" and csu: "fle cs cu"
    by (simp_all add: cs_def cu_def)
  have run: "calculate_extra_fuel_cost_10k_f64 (Fin s) (Fin u) (Fin p) = Inr (fsub cu cs)"
    using fuel_f64_unfold [OF s assms(1) assms(3)]
    by (simp add: cs_def cu_def gs_def gu_def l(1))
  from fsub_nonneg [OF c0 csu]
  have sign: "(fsub cu cs = NaN \<and> cs = PInf) \<or> fle (Fin 0) (fsub cu cs)" .
  have "fle (Fin 0) (fsub cu cs)" if range: "1 / 2 ^ 500 \<le> s" "p \<le> 2 ^ 500"
  proof -
    from range(1) s have "1 / s \<le> 2 ^ 500"
      by (simp add: field_simps)
    then have "10000 * (1 / s) \<le> 10000 * 2 ^ 500"
      by (intro mult_left_mono) simp_all
    also have "(10000::real) * 2 ^ 500 \<le> 2 ^ 514"
      by simp
    finally have "10000 / s \<le> 2 ^ 514" by simp
    moreover from s have "0 \<le> 10000 / s" by simp
    ultimately obtain g where g: "gs = Fin g" "0 \<le> g" "g \<le> 2 ^ 514"
      unfolding gs_def using rnd_le_pow2 [of "10000 / s" 514] by auto
    from g(2,3) l(2,3) have "g * l \<le> 2 ^ 514 * 5"
      by (intro mult_mono) simp_all
    also have "(2::real) ^ 514 * 5 \<le> 2 ^ 517" by simp
    finally have "g * l \<le> 2 ^ 517" .
    moreover from g(2) lpos have "0 \<le> g * l" by simp
    ultimately obtain a where a: "rnd (g * l) = Fin a" "0 \<le> a" "a \<le> 2 ^ 517"
      using rnd_le_pow2 [of "g * l" 517] by auto
    from a(2,3) range(2) assms(3) have "a * p \<le> 2 ^ 517 * 2 ^ 500"
      by (intro mult_mono) simp_all
    also have "(2::real) ^ 517 * 2 ^ 500 = 2 ^ 1017"
      by (simp flip: power_add)
    finally have "a * p \<le> 2 ^ 1017" .
    moreover from a(2) assms(3) have "0 \<le> a * p" by simp
    ultimately obtain c where "rnd (a * p) = Fin c"
      using rnd_le_pow2 [of "a * p" 1017] by auto
    then have "cs \<noteq> PInf"
      by (simp add: cs_def g(1) a(1))
    with sign show ?thesis by blast
  qed
  with sign run show ?thesis by blast
qed

theorem fuel_cost_f64_never_negative_witness:
  "\<exists>r. calculate_extra_fuel_cost_10k_f64 (Fin 54.25) (Fin 51) (Fin 1.5) = Inr r
       \<and> fle (Fin 0) r"
  using fuel_cost_f64_never_negative [of 51 "54.25" "1.5"] by auto

subsection \<open>The tyre guard looks at the lifespan only\<close>

text \<open>
  Claim C10. The guard of \<open>calculate_extra_tyre_cost_10k\<close> tests the lifespan and nothing
  else: there is an input with a positive lifespan and an underinflated tyre cost below the
  standard one at which the function returns a strictly negative value, neither 0 nor an
  exception. With the two Small Van costs swapped and the default lifespan the result is
  \<open>- 21.6\<close>.
\<close>

theorem tyre_guard_lifespan_only:
  "\<exists>tyre_cost_std' tyre_cost_under' lifespan_miles r.
     0 < lifespan_miles \<and> tyre_cost_under' < tyre_cost_std'
     \<and> calculate_extra_tyre_cost_10k tyre_cost_std' tyre_cost_under' lifespan_miles = Inr r
     \<and> r < 0"
proof -
  have run: "calculate_extra_tyre_cost_10k 283.2 240.0 20000 = Inr (- 21.6)"
    by (simp add: tyre_value)
  have "(0::real) < 20000 \<and> (240.0::real) < 283.2
        \<and> calculate_extra_tyre_cost_10k 283.2 240.0 20000 = Inr (- 21.6) \<and> (- 21.6 :: real) < 0"
    using run by simp
  then show ?thesis by blast
qed

subsection \<open>The total is the sum of the class savings\<close>

text \<open>
  Claim C4. Whatever the widgets hold for the four van types, the script returns, and its
  \<open>total_fleet_savings\<close> is the sum of the four values that \<open>process_van_type\<close>
  returned for Small, Large, Medium and Long Wheelbase Van, each call receiving the summary
  the previous one left.
\<close>

theorem total_is_sum_of_class_savings:
  "\<exists>a1 a2 a3 a4 s1 s2 s3 s4.
     process_van_type ''Small Van'' price
       (fst (inputs ''Small Van'')) (snd (inputs ''Small Van'')) Map.empty = Inr (a1, s1)
   \<and> process_van_type ''Large Van'' price
       (fst (inputs ''Large Van'')) (snd (inputs ''Large Van'')) s1 = Inr (a2, s2)
   \<and> process_van_type ''Medium Van'' price
       (fst (inputs ''Medium Van'')) (snd (inputs ''Medium Van'')) s2 = Inr (a3, s3)
   \<and> process_van_type ''Long Wheelbase Van'' price
       (fst (inputs ''Long Wheelbase Van'')) (snd (inputs ''Long Wheelbase Van'')) s3 = Inr (a4, s4)
   \<and> fleet_script price inputs = Inr (a1 + a2 + a3 + a4, s4)"
proof -
  obtain p1 where "DEFAULT_PARAMS ''Small Van'' = Some p1"
    by (simp add: DEFAULT_PARAMS_def)
  from add_van_type_returns [OF this, of price inputs "(0, Map.empty)"]
  obtain a1 s1 where
    r1: "process_van_type ''Small Van'' price
           (fst (inputs ''Small Van'')) (snd (inputs ''Small Van'')) Map.empty = Inr (a1, s1)"
    and t1: "add_van_type price inputs ''Small Van'' (0, Map.empty) = Inr (a1, s1)"
    by auto
  obtain p2 where "DEFAULT_PARAMS ''Large Van'' = Some p2"
    by (simp add: DEFAULT_PARAMS_def)
  from add_van_type_returns [OF this, of price inputs "(a1, s1)"]
  obtain a2 s2 where
    r2: "process_van_type ''Large Van'' price
           (fst (inputs ''Large Van'')) (snd (inputs ''Large Van'')) s1 = Inr (a2, s2)"
    and t2: "add_van_type price inputs ''Large Van'' (a1, s1) = Inr (a1 + a2, s2)"
    by auto
  obtain p3 where "DEFAULT_PARAMS ''Medium Van'' = Some p3"
    by (simp add: DEFAULT_PARAMS_def)
  from add_van_type_returns [OF this, of price inputs "(a1 + a2, s2)"]
  obtain a3 s3 where
    r3: "process_van_type ''Medium Van'' price
           (fst (inputs ''Medium Van'')) (snd (inputs ''Medium Van'')) s2 = Inr (a3, s3)"
    and t3: "add_van_type price inputs ''Medium Van'' (a1 + a2, s2) = Inr (a1 + a2 + a3, s3)"
    by auto
  obtain p4 where "DEFAULT_PARAMS ''Long Wheelbase Van'' = Some p4"
    by (simp add: DEFAULT_PARAMS_def)
  from add_van_type_returns [OF this, of price inputs "(a1 + a2 + a3, s3)"]
  obtain a4 s4 where
    r4: "process_van_type ''Long Wheelbase Van'' price
           (fst (inputs ''Long Wheelbase Van'')) (snd (inputs ''Long Wheelbase Van'')) s3 = Inr (a4, s4)"
    and t4: "add_van_type price inputs ''Long Wheelbase Van'' (a1 + a2 + a3, s3)
               = Inr (a1 + a2 + a3 + a4, s4)"
    by auto
  have "fleet_script price inputs = Inr (a1 + a2 + a3 + a4, s4)"
    by (simp add: fleet_script_def t1 t2 t3 t4)
  with r1 r2 r3 r4 show ?thesis by blast
qed

subsection \<open>The saving of one class\<close>

text \<open>
  Claim C5, as the code has it. For every registered class the two helper functions return
  values \<open>f\<close> and \<open>t\<close>. If the count and the mileage are both positive,
  \<open>process_van_type\<close> returns \<open>(miles / 10000) * (f + t) * count\<close> and records the unit
  saving \<open>f + t\<close> under the class name. Otherwise it returns 0 and records 0 under the
  class name (line 109), not the unit saving.
\<close>

theorem class_annual_saving:
  assumes "DEFAULT_PARAMS name = Some p"
  shows "\<exists>f t.
           calculate_extra_fuel_cost_10k (mpg_std p) (mpg_under p) price = Inr f
         \<and> calculate_extra_tyre_cost_10k (tyre_cost_std p) (tyre_cost_under p)
             (of_int DEFAULT_TYRE_LIFESPAN_MILES) = Inr t
         \<and> (0 < count \<and> 0 < miles \<longrightarrow>
              process_van_type name price count miles sm =
                Inr (of_int miles / 10000 * (f + t) * of_int count, sm(name \<mapsto> f + t)))
         \<and> (\<not> (0 < count \<and> 0 < miles) \<longrightarrow>
              process_van_type name price count miles sm = Inr (0, sm(name \<mapsto> 0)))"
proof -
  obtain f where f: "calculate_extra_fuel_cost_10k (mpg_std p) (mpg_under p) price = Inr f"
    using fuel_returns by blast
  obtain t where t: "calculate_extra_tyre_cost_10k (tyre_cost_std p) (tyre_cost_under p)
           (of_int DEFAULT_TYRE_LIFESPAN_MILES) = Inr t"
    using tyre_returns by blast
  have "0 < count \<and> 0 < miles \<longrightarrow>
          process_van_type name price count miles sm =
            Inr (of_int miles / 10000 * (f + t) * of_int count, sm(name \<mapsto> f + t))"
    using process_van_type_active [OF assms _ _ f t] by blast
  moreover have "\<not> (0 < count \<and> 0 < miles) \<longrightarrow>
          process_van_type name price count miles sm = Inr (0, sm(name \<mapsto> 0))"
    using process_van_type_idle [OF assms] by blast
  ultimately show ?thesis using f t by blast
qed

theorem class_annual_saving_witness:
  "(\<exists>f t. calculate_extra_fuel_cost_10k 54.3 51.0 1.51 = Inr f
        \<and> calculate_extra_tyre_cost_10k 240.0 283.2 20000 = Inr t
        \<and> process_van_type ''Small Van'' 1.51 1 10000 Map.empty =
            Inr (10000 / 10000 * (f + t) * 1, [''Small Van'' \<mapsto> f + t]))
   \<and> process_van_type ''Small Van'' 1.51 0 10000 Map.empty = Inr (0, [''Small Van'' \<mapsto> 0])"
proof -
  from class_annual_saving [OF small_van_params, of "1.51" 1 10000 Map.empty]
  have "\<exists>f t. calculate_extra_fuel_cost_10k 54.3 51.0 1.51 = Inr f
        \<and> calculate_extra_tyre_cost_10k 240.0 283.2 20000 = Inr t
        \<and> process_van_type ''Small Van'' 1.51 1 10000 Map.empty =
            Inr (10000 / 10000 * (f + t) * 1, [''Small Van'' \<mapsto> f + t])"
    by (simp add: DEFAULT_TYRE_LIFESPAN_MILES_def)
  moreover from class_annual_saving [OF small_van_params, of "1.51" 0 10000 Map.empty]
  have "process_van_type ''Small Van'' 1.51 0 10000 Map.empty = Inr (0, [''Small Van'' \<mapsto> 0])"
    by auto
  ultimately show ?thesis by simp
qed

text \<open>
  Claim C5 as stated says that with a zero count the unit saving is still recorded. For one
  Small Van class with count 0, mileage 10000 and diesel at 1.51 the summary holds 0, while
  the unit saving \<open>755105549 / 9231000 + 21.6\<close> is not 0.
\<close>

theorem unit_saving_not_recorded_when_idle:
  "process_van_type ''Small Van'' 1.51 0 10000 Map.empty = Inr (0, [''Small Van'' \<mapsto> 0])
   \<and> calculate_extra_fuel_cost_10k 54.3 51.0 1.51 = Inr (755105549 / 9231000)
   \<and> calculate_extra_tyre_cost_10k 240.0 283.2 20000 = Inr 21.6
   \<and> (755105549 / 9231000 + 21.6 :: real) \<noteq> 0"
  using process_van_type_idle [OF small_van_params, of 0 10000 "1.51" Map.empty]
    small_van_fuel small_van_tyre
  by simp

subsection \<open>Errors other than the unknown class\<close>


subsection \<open>Linearity in the vehicle count\<close>

text \<open>
  Claim C8. For every registered class, every positive mileage and every positive count
  \<open>n\<close>, with the diesel price and the summary fixed, \<open>process_van_type\<close> at the count
  \<open>2 * n\<close> returns exactly twice the annual saving it returns at \<open>n\<close>, and records the same
  unit saving.
\<close>

theorem linear_in_vehicle_count:
  assumes "DEFAULT_PARAMS name = Some p" and "0 < miles" and "0 < n"
  shows "\<exists>a sm1. process_van_type name price n miles sm = Inr (a, sm1)
               \<and> process_van_type name price (2 * n) miles sm = Inr (2 * a, sm1)"
proof -
  obtain f where f: "calculate_extra_fuel_cost_10k (mpg_std p) (mpg_under p) price = Inr f"
    using fuel_returns by blast
  obtain t where t: "calculate_extra_tyre_cost_10k (tyre_cost_std p) (tyre_cost_under p)
           (of_int DEFAULT_TYRE_LIFESPAN_MILES) = Inr t"
    using tyre_returns by blast
  from assms(3) have n2: "0 < 2 * n" by simp
  define a where "a = of_int miles / 10000 * (f + t) * of_int n"
  have one: "process_van_type name price n miles sm = Inr (a, sm(name \<mapsto> f + t))"
    unfolding a_def by (rule process_van_type_active [OF assms(1) assms(3) assms(2) f t])
  have "of_int miles / 10000 * (f + t) * of_int (2 * n) = 2 * a"
    by (simp add: a_def)
  with process_van_type_active [OF assms(1) n2 assms(2) f t, of sm]
  have two: "process_van_type name price (2 * n) miles sm = Inr (2 * a, sm(name \<mapsto> f + t))"
    by (simp only:)
  from one two show ?thesis by blast
qed

theorem linear_in_vehicle_count_witness:
  "\<exists>a sm1. process_van_type ''Small Van'' 1.51 1 10000 Map.empty = Inr (a, sm1)
          \<and> process_van_type ''Small Van'' 1.51 (2 * 1) 10000 Map.empty = Inr (2 * a, sm1)"
  using linear_in_vehicle_count [OF small_van_params, of 10000 1 "1.51" Map.empty]
  by simp

subsection \<open>The Small Van scenario\<close>



end
